theory Spec2Isabelle
  imports Complex_Main "HOL-Library.Char_ord" "HOL-Library.List_Lexorder" "HOL-Library.Multiset"
begin

section \<open>Python values\<close>

subsection \<open>Exceptions\<close>

text \<open>
  The exceptions that the modelled functions of \<^verbatim>\<open>convert_acc/__init__.py\<close> can raise.
  The first two carry the names of the specification's error taxonomy; the Python
  exception behind each is given with it.
\<close>

datatype error =
    InvalidSensorCode   \<comment> \<open>\<^verbatim>\<open>getFloorCode\<close>: \<^verbatim>\<open>letter\<close> is unbound at \<^verbatim>\<open>return letter + numeric\<close> (UnboundLocalError)\<close>
  | InvalidSensitivity  \<comment> \<open>\<^verbatim>\<open>setSensitivity\<close>: \<^verbatim>\<open>raise ValueError('Sensitivity must contain non-null value.')\<close>\<close>
  | IndexError          \<comment> \<open>index \<^verbatim>\<open>[0]\<close> of an empty string or of an empty selection\<close>
  | ValueError          \<comment> \<open>\<^verbatim>\<open>int('')\<close>; a column assigned with the wrong number of values\<close>
  | KeyError            \<comment> \<open>a column that the frame does not have\<close>
  | TypeError           \<comment> \<open>arithmetic on a column that does not hold numbers\<close>

definition bind :: "error + 'a \<Rightarrow> ('a \<Rightarrow> error + 'b) \<Rightarrow> error + 'b" where
  "bind r f = (case r of Inl e \<Rightarrow> Inl e | Inr v \<Rightarrow> f v)"

subsection \<open>Floats\<close>

text \<open>
  A Python float is an IEEE 754 binary64 number. A finite float is modelled by the
  rational number it denotes, and every arithmetic operation by the exact operation
  followed by rounding to the nearest number with a 53-bit significand, ties to the even
  significand. The exponent range is not bounded: overflow to infinity, subnormal
  numbers and NaN are outside the model.
\<close>

fun bit_length :: "nat \<Rightarrow> nat" where
  "bit_length n = (if n = 0 then 0 else Suc (bit_length (n div 2)))"

declare bit_length.simps [simp del]

definition binade :: "rat \<Rightarrow> int" where
  \<comment> \<open>the exponent \<open>e\<close> with \<open>2 powi e \<le> \<bar>x\<bar> < 2 powi (e + 1)\<close>, for \<open>x \<noteq> 0\<close>\<close>
  "binade x = (let (p, q) = quotient_of x;
                   k = int (bit_length (nat \<bar>p\<bar>)) - int (bit_length (nat q))
               in if 2 powi k \<le> \<bar>x\<bar> then k else k - 1)"

definition round_half_even :: "rat \<Rightarrow> int" where
  "round_half_even x = (let f = \<lfloor>x\<rfloor>; d = x - of_int f in
     if d < 1 / 2 then f else if 1 / 2 < d then f + 1 else if even f then f else f + 1)"

definition fl :: "rat \<Rightarrow> rat" where
  \<comment> \<open>rounding to binary64; also the value of a decimal literal and of \<^verbatim>\<open>float(n)\<close>\<close>
  "fl x = (if x = 0 then 0 else
     let e = binade x - 52 in of_int (round_half_even (x / 2 powi e)) * 2 powi e)"

definition fadd :: "rat \<Rightarrow> rat \<Rightarrow> rat" where
  "fadd x y = fl (x + y)"

definition fmul :: "rat \<Rightarrow> rat \<Rightarrow> rat" where
  "fmul x y = fl (x * y)"

definition fdiv :: "rat \<Rightarrow> rat \<Rightarrow> rat" where
  "fdiv x y = fl (x / y)"

definition rint :: "rat \<Rightarrow> rat" where
  \<comment> \<open>\<^verbatim>\<open>numpy.rint\<close>: the nearest integer, ties to the even one\<close>
  "rint x = of_int (round_half_even x)"

definition np_round :: "rat \<Rightarrow> nat \<Rightarrow> rat" where
  \<comment> \<open>\<^verbatim>\<open>round(x, ndigits)\<close> of a \<^verbatim>\<open>numpy.float64\<close>, as numpy computes it: the value is
      multiplied by the float \<open>10 ^ ndigits\<close>, rounded to an integer by \<^verbatim>\<open>rint\<close>, and
      divided by the same float, each a float operation\<close>
  "np_round x ndigits =
     (if ndigits = 0 then rint x
      else let f = fl (10 ^ ndigits) in fdiv (rint (fmul x f)) f)"

subsection \<open>Strings\<close>

fun startswith :: "string \<Rightarrow> string \<Rightarrow> bool" where
  "startswith s [] = True"
| "startswith [] (c # p) = False"
| "startswith (d # s) (c # p) = (d = c \<and> startswith s p)"

fun contains :: "string \<Rightarrow> string \<Rightarrow> bool" where
  \<comment> \<open>\<^verbatim>\<open>sub in s\<close>: \<open>sub\<close> occurs in \<open>s\<close> as a contiguous substring\<close>
  "contains sub [] = (sub = [])"
| "contains sub (c # s) = (startswith (c # s) sub \<or> contains sub s)"

declare contains.simps [simp del]

definition split_first :: "char \<Rightarrow> string \<Rightarrow> string" where
  \<comment> \<open>\<^verbatim>\<open>s.split(sep)[0]\<close>\<close>
  "split_first sep s = takeWhile (\<lambda>c. c \<noteq> sep) s"

definition split_last :: "char \<Rightarrow> string \<Rightarrow> string" where
  \<comment> \<open>\<^verbatim>\<open>s.split(sep)[-1]\<close>\<close>
  "split_last sep s = rev (takeWhile (\<lambda>c. c \<noteq> sep) (rev s))"

definition isdigit :: "char \<Rightarrow> bool" where
  \<comment> \<open>\<^verbatim>\<open>c.isdigit()\<close> on ASCII text\<close>
  "isdigit c = (c \<in> set ''0123456789'')"

definition digit_value :: "char \<Rightarrow> int" where
  "digit_value c = int (of_char c) - 48"

definition decimal_value :: "string \<Rightarrow> int" where
  \<comment> \<open>the number that a string of decimal digits denotes\<close>
  "decimal_value s = foldl (\<lambda>a c. 10 * a + digit_value c) 0 s"

definition py_int :: "string \<Rightarrow> error + int" where
  \<comment> \<open>\<^verbatim>\<open>int(s)\<close> for a string of decimal digits; \<^verbatim>\<open>int('')\<close> raises ValueError\<close>
  "py_int s = (if s = [] then Inl ValueError else Inr (decimal_value s))"

fun str_nat :: "nat \<Rightarrow> string" where
  "str_nat n = (if n < 10 then [''0123456789'' ! n]
                else str_nat (n div 10) @ [''0123456789'' ! (n mod 10)])"

declare str_nat.simps [simp del]

definition py_str :: "int \<Rightarrow> string" where
  \<comment> \<open>\<^verbatim>\<open>str(n)\<close> of an int\<close>
  "py_str n = (if n < 0 then CHR ''-'' # str_nat (nat (- n)) else str_nat (nat n))"

section \<open>Sensor codes and file names\<close>

definition SENSOR_CODES :: "string list" where
  "SENSOR_CODES = [''N39'', ''S39'', ''N24'', ''S24'', ''N12'', ''S12'', ''B4F'', ''FF'']"

definition SENSOR_CODES_WITH_CHANNELS :: "string list" where
  "SENSOR_CODES_WITH_CHANNELS =
     [''N39x'', ''N39y'', ''N39z'', ''S39x'', ''S39y'', ''S39z'',
      ''N24x'', ''N24y'', ''N24z'', ''S24x'', ''S24y'', ''S24z'',
      ''N12x'', ''N12y'', ''N12z'', ''S12x'', ''S12y'', ''S12z'',
      ''B4Fx'', ''B4Fy'', ''B4Fz'', ''FFN'', ''FFW'', ''FFZ'']"

definition getFloor :: "string \<Rightarrow> string" where
  "getFloor sensorCodeText = filter isdigit sensorCodeText"

definition getFloorCode :: "string \<Rightarrow> error + string" where
  "getFloorCode sensorCodeText =
     (case sensorCodeText of
        [] \<Rightarrow> Inl IndexError
      | c # _ \<Rightarrow>
          if c = CHR ''F'' then Inr ''GF''
          else if c \<in> set [CHR ''N'', CHR ''S''] then
            bind (py_int (getFloor sensorCodeText)) (\<lambda>n. Inr (''L'' @ py_str (n + 1)))
          else if c = CHR ''B'' then Inr (''B'' @ getFloor sensorCodeText)
          else Inl InvalidSensorCode)"

definition getTimeText :: "string \<Rightarrow> string \<times> string" where
  "getTimeText inputFile =
     (let filename = split_last CHR ''/'' inputFile;
          timestampText = split_first CHR ''.'' filename;
          UTCHour = take 2 (drop 8 timestampText)
      in (UTCHour, timestampText))"

definition sortFilesBySensorCode :: "string list \<Rightarrow> string list" where
  "sortFilesBySensorCode inputFileList =
     concat (map (\<lambda>code. sort (filter (contains code) inputFileList)) SENSOR_CODES)"

definition set_listing :: "'a list \<Rightarrow> 'a list \<Rightarrow> bool" where
  \<comment> \<open>\<open>ys\<close> is a possible value of \<^verbatim>\<open>list(set(xs))\<close>: the distinct elements of \<open>xs\<close>, in the
      order in which the set happens to be iterated\<close>
  "set_listing xs ys = (distinct ys \<and> set ys = set xs)"

definition sortFiles :: "(string \<times> string) list \<Rightarrow> string list \<Rightarrow> error + string list option" where
  \<comment> \<open>\<open>uniqueTimeTuples\<close> is the listing of the set of time tuples that the run produced.
      \<open>Inr None\<close> is the value \<^verbatim>\<open>None\<close>, returned when no branch of the \<^verbatim>\<open>if\<close> is
      taken; no path raises.\<close>
  "sortFiles uniqueTimeTuples inputFileList =
     (let numHours = length uniqueTimeTuples in
      if numHours = 1 then Inr (Some (sortFilesBySensorCode inputFileList))
      else if numHours = 2 then
        (let firstTime = (if fst (uniqueTimeTuples ! 0) < fst (uniqueTimeTuples ! 1)
                          then snd (uniqueTimeTuples ! 0) else snd (uniqueTimeTuples ! 1));
             firstFileList = sortFilesBySensorCode (filter (contains firstTime) inputFileList);
             secondFileList =
               sortFilesBySensorCode (filter (\<lambda>f. \<not> contains firstTime f) inputFileList)
         in Inr (Some (firstFileList @ secondFileList)))
      else Inr None)"

section \<open>The conversion of one sensor channel\<close>

subsection \<open>Scalar conversions\<close>

definition setSensitivity :: "string \<Rightarrow> error + rat" where
  "setSensitivity sensorCodeWithChannel =
     (let groundFloorSensorCodes = filter (contains ''F'') SENSOR_CODES_WITH_CHANNELS;
          upperFloorSensorCodes = filter (\<lambda>c. \<not> contains ''F'' c) SENSOR_CODES_WITH_CHANNELS
      in if sensorCodeWithChannel \<in> set groundFloorSensorCodes then Inr (fl (5 / 4))
         else if sensorCodeWithChannel \<in> set upperFloorSensorCodes then Inr (fl (5 / 8))
         else Inl InvalidSensitivity)"

definition convertCountToG :: "rat \<Rightarrow> int \<Rightarrow> rat" where
  \<comment> \<open>the first argument is \<^verbatim>\<open>self.sensitivity\<close>, which \<open>setSensitivity\<close> has set to 1.25 or to
      0.625: the division by it does not raise\<close>
  "convertCountToG sensitivity c =
     fmul (fmul (fl (of_int c)) (fdiv (fl (5 / 2)) (fl 8388608))) (fdiv (fl 1) sensitivity)"

definition convertGToMetric :: "rat \<Rightarrow> rat" where
  "convertGToMetric g = fmul g (fl (980665 / 100000))"

definition convertMToCm :: "rat \<Rightarrow> rat" where
  "convertMToCm m = fmul m (fl 100)"

definition fs :: rat where
  "fs = fl 100"

definition dt :: rat where
  "dt = fdiv (fl 1) fs"

definition zeroPadLength :: nat where
  "zeroPadLength = 500"

definition ignoredSamples :: nat where
  "ignoredSamples = 6000"

subsection \<open>Integration, truncation and peaks of a series\<close>

fun integrate_loop :: "rat \<Rightarrow> (rat \<times> rat) list \<Rightarrow> rat list \<Rightarrow> rat list" where
  "integrate_loop h [] integratedList = integratedList"
| "integrate_loop h (z # zipped) integratedList =
     integrate_loop h zipped
       (integratedList @ [fadd (fdiv (fmul h (fadd (fst z) (snd z))) (fl 2)) (last integratedList)])"

definition integrateSeries :: "rat \<Rightarrow> rat list \<Rightarrow> rat list" where
  \<comment> \<open>the first argument is \<^verbatim>\<open>self.dt\<close>\<close>
  "integrateSeries h inputList = integrate_loop h (zip inputList (tl inputList)) [0]"

definition truncate_rows :: "nat \<Rightarrow> nat \<Rightarrow> 'a list \<Rightarrow> 'a list" where
  \<comment> \<open>\<^verbatim>\<open>truncate(before, after)\<close> then \<^verbatim>\<open>reset_index(drop=True)\<close>, on rows labelled
      \<open>0, 1, 2, \<dots>\<close>: the rows whose label lies between the two bounds, both included\<close>
  "truncate_rows before after xs =
     map snd (filter (\<lambda>(i, x). before \<le> i \<and> i \<le> after) (enumerate 0 xs))"

fun first_index :: "'a \<Rightarrow> 'a list \<Rightarrow> nat option" where
  \<comment> \<open>\<^verbatim>\<open>index[column == v][0]\<close>: the first row label whose value is \<open>v\<close>\<close>
  "first_index v [] = None"
| "first_index v (x # xs) = (if x = v then Some 0 else map_option Suc (first_index v xs))"

record PeakStat =
  index :: nat
  rawValue :: rat
  roundedValue :: rat

definition getStats :: "rat list \<Rightarrow> error + PeakStat" where
  \<comment> \<open>the argument is the column \<^verbatim>\<open>self.df[columnName]\<close>, row labels \<open>0, 1, 2, \<dots>\<close>; the
      minimum of an empty column is NaN, which no row holds, so that \<^verbatim>\<open>[0]\<close> raises.
      \<^verbatim>\<open>min()\<close> and \<^verbatim>\<open>max()\<close> return a \<^verbatim>\<open>numpy.float64\<close>, and \<^verbatim>\<open>round\<close> rounds it as numpy
      does\<close>
  "getStats col =
     (case col of
        [] \<Rightarrow> Inl IndexError
      | x # xs \<Rightarrow>
          let minVal = fold min xs x;
              maxVal = fold max xs x
          in case (first_index minVal col, first_index maxVal col) of
               (Some minValIndex, Some maxValIndex) \<Rightarrow>
                 let peakInfo = (if \<bar>maxVal\<bar> < \<bar>minVal\<bar> then (minValIndex, minVal)
                                 else (maxValIndex, maxVal))
                 in Inr \<lparr>index = fst peakInfo, rawValue = snd peakInfo,
                          roundedValue = np_round (snd peakInfo) 4\<rparr>
             | _ \<Rightarrow> Inl IndexError)"

subsection \<open>Data frames\<close>

text \<open>
  A pandas data frame is modelled by its columns in their order, each a name and the list
  of its cells. The row labels are \<open>0, 1, 2, \<dots>\<close>: the frame that the conversion is given
  has them, and the conversion resets them after every operation that would change them.
\<close>

datatype cell = NoneCell | StrCell string | IntCell int | FloatCell rat

type_synonym frame = "(string \<times> cell list) list"

definition nrows :: "frame \<Rightarrow> nat" where
  \<comment> \<open>\<^verbatim>\<open>len(df)\<close>\<close>
  "nrows d = (case d of [] \<Rightarrow> 0 | (name, col) # _ \<Rightarrow> length col)"

definition get_column :: "frame \<Rightarrow> string \<Rightarrow> error + cell list" where
  \<comment> \<open>\<^verbatim>\<open>df[name]\<close>\<close>
  "get_column d name = (case map_of d name of None \<Rightarrow> Inl KeyError | Some col \<Rightarrow> Inr col)"

fun float_cells :: "cell list \<Rightarrow> error + rat list" where
  "float_cells [] = Inr []"
| "float_cells (FloatCell x # cs) = bind (float_cells cs) (\<lambda>xs. Inr (x # xs))"
| "float_cells (_ # cs) = Inl TypeError"

fun int_cells :: "cell list \<Rightarrow> error + int list" where
  "int_cells [] = Inr []"
| "int_cells (IntCell n # cs) = bind (int_cells cs) (\<lambda>ns. Inr (n # ns))"
| "int_cells (_ # cs) = Inl TypeError"

definition float_column :: "frame \<Rightarrow> string \<Rightarrow> error + rat list" where
  "float_column d name = bind (get_column d name) float_cells"

definition int_column :: "frame \<Rightarrow> string \<Rightarrow> error + int list" where
  "int_column d name = bind (get_column d name) int_cells"

definition set_column :: "frame \<Rightarrow> string \<Rightarrow> cell list \<Rightarrow> error + frame" where
  \<comment> \<open>\<^verbatim>\<open>df[name] = values\<close> for an array of values: an existing column is replaced in its
      place, a new one is added at the end; the number of values must be the number of rows\<close>
  "set_column d name values =
     (if d \<noteq> [] \<and> length values \<noteq> nrows d then Inl ValueError
      else if name \<in> set (map fst d)
        then Inr (map (\<lambda>(n, col). (n, if n = name then values else col)) d)
      else Inr (d @ [(name, values)]))"

definition reindex :: "nat \<Rightarrow> cell list \<Rightarrow> cell list" where
  \<comment> \<open>a series with row labels \<open>0, 1, 2, \<dots>\<close> aligned to \<open>n\<close> rows: further values are dropped,
      missing ones are empty\<close>
  "reindex n values = take n values @ replicate (n - length values) NoneCell"

definition assign_array :: "frame \<Rightarrow> string \<Rightarrow> rat list \<Rightarrow> error + frame" where
  \<comment> \<open>\<^verbatim>\<open>df[name] = a\<close> for a numpy array \<open>a\<close> of floats\<close>
  "assign_array d name xs = set_column d name (map FloatCell xs)"

definition assign_series :: "frame \<Rightarrow> string \<Rightarrow> rat list \<Rightarrow> error + frame" where
  \<comment> \<open>\<^verbatim>\<open>df[name] = s\<close> for a pandas series \<open>s\<close> of floats: the series is aligned to the rows\<close>
  "assign_series d name xs =
     set_column d name (if d = [] then map FloatCell xs else reindex (nrows d) (map FloatCell xs))"

definition cleanDf :: "(string \<times> int) list \<Rightarrow> frame" where
  \<comment> \<open>the frame that \<^verbatim>\<open>getCleanDf\<close> returns for rows that hold the given timestamps and
      counts: \<^verbatim>\<open>pd.DataFrame({'timestamp': timestampSeries, 'count': countSeries})\<close>\<close>
  "cleanDf samples =
     [(''timestamp'', map (\<lambda>s. StrCell (fst s)) samples),
      (''count'', map (\<lambda>s. IntCell (snd s)) samples)]"

subsection \<open>The stages\<close>

text \<open>
  The functions of \<^verbatim>\<open>scipy.signal\<close> that the conversion calls are parameters of the model:
  \<^verbatim>\<open>detrend(x, type='constant')\<close>, and \<^verbatim>\<open>lfilter(b, a, x)\<close> with the coefficients that
  \<^verbatim>\<open>butterPass\<close> returns for \<^verbatim>\<open>'band'\<close> and for \<^verbatim>\<open>'high'\<close>.
\<close>

record scipy_signal =
  detrend_constant :: "rat list \<Rightarrow> rat list"
  lfilter_band :: "rat list \<Rightarrow> rat list"
  lfilter_high :: "rat list \<Rightarrow> rat list"

fun padded_columns :: "frame \<Rightarrow> string list \<Rightarrow> error + frame" where
  \<comment> \<open>the loop of \<^verbatim>\<open>getZeroPaddedDf\<close>, each padded column with its name; the columns
      padded with zeros hold floats\<close>
  "padded_columns d [] = Inr []"
| "padded_columns d (column # columns) =
     bind (get_column d column) (\<lambda>col.
       let pad = replicate zeroPadLength
                   (if column = ''timestamp'' then NoneCell else FloatCell 0);
           paddedColumn = pad @ col @ pad
       in bind (padded_columns d columns) (\<lambda>paddedColumns.
            Inr ((column, paddedColumn) # paddedColumns)))"

definition getZeroPaddedDf :: "frame \<Rightarrow> string list \<Rightarrow> error + frame" where
  \<comment> \<open>the new frame holds the padded columns only; the column names given are distinct\<close>
  "getZeroPaddedDf d columns = padded_columns d columns"

definition butterBandpassFilter :: "scipy_signal \<Rightarrow> frame \<Rightarrow> string \<Rightarrow> string \<Rightarrow> error + frame" where
  "butterBandpassFilter lib d inputColumn outputColumn =
     bind (float_column d inputColumn) (\<lambda>xs. assign_array d outputColumn (lfilter_band lib xs))"

definition butterHighpassFilter :: "scipy_signal \<Rightarrow> frame \<Rightarrow> string \<Rightarrow> string \<Rightarrow> error + frame" where
  "butterHighpassFilter lib d inputColumn outputColumn =
     bind (float_column d inputColumn) (\<lambda>xs. assign_array d outputColumn (lfilter_high lib xs))"

definition removeExtraneousSamples :: "frame \<Rightarrow> frame" where
  "removeExtraneousSamples d =
     (let endIndex = 40000 + zeroPadLength
      in map (\<lambda>(name, col). (name, truncate_rows ignoredSamples endIndex col)) d)"

definition getStats_column :: "frame \<Rightarrow> string \<Rightarrow> error + PeakStat" where
  \<comment> \<open>\<^verbatim>\<open>self.getStats(columnName)\<close>\<close>
  "getStats_column d columnName = bind (float_column d columnName) getStats"

subsection \<open>The constructor\<close>

text \<open>
  The attributes that no statement below is about (the sensor code, the floor, the event
  timestamp, the filter parameters and the plot dictionaries) are left out of the
  record. The frame given to the constructor is the one of \<^verbatim>\<open>ProcessedFromTxtFile\<close>,
  whose \<^verbatim>\<open>count\<close> column holds ints.
\<close>

record Conversion =
  df :: frame
  sensitivity :: rat
  accOffsetStats :: PeakStat
  accBandpassedStats :: PeakStat
  velStats :: PeakStat
  dispStats :: PeakStat

definition Conversion_init :: "scipy_signal \<Rightarrow> frame \<Rightarrow> string \<Rightarrow> error + Conversion" where
  "Conversion_init lib d0 sensorCodeWithChannel =
     bind (setSensitivity sensorCodeWithChannel) (\<lambda>sens.
     bind (int_column d0 ''count'') (\<lambda>counts.
     bind (assign_series d0 ''g'' (map (convertCountToG sens) counts)) (\<lambda>d1.
     bind (getZeroPaddedDf d1 [''timestamp'', ''g'']) (\<lambda>d2.
     bind (float_column d2 ''g'') (\<lambda>g.
     bind (assign_array d2 ''offset_g'' (detrend_constant lib g)) (\<lambda>d3.
     bind (float_column d3 ''offset_g'') (\<lambda>offset_g.
     bind (assign_series d3 ''acc_ms2'' (map convertGToMetric offset_g)) (\<lambda>d4.
     bind (butterBandpassFilter lib d4 ''offset_g'' ''bandpassed_g'') (\<lambda>d5.
     bind (butterBandpassFilter lib d5 ''acc_ms2'' ''bandpassed_ms2'') (\<lambda>d6.
     bind (float_column d6 ''bandpassed_ms2'') (\<lambda>bandpassed_ms2.
     bind (assign_series d6 ''velocity_ms'' (integrateSeries dt bandpassed_ms2)) (\<lambda>d7.
     let d8 = removeExtraneousSamples d7 in
     bind (float_column d8 ''velocity_ms'') (\<lambda>velocity_ms.
     bind (assign_array d8 ''detrended_velocity_ms'' (detrend_constant lib velocity_ms)) (\<lambda>d9.
     bind (float_column d9 ''detrended_velocity_ms'') (\<lambda>detrended_velocity_ms.
     bind (assign_series d9 ''detrended_velocity_cms''
             (map convertMToCm detrended_velocity_ms)) (\<lambda>d10.
     bind (assign_series d10 ''displacement_m''
             (integrateSeries dt detrended_velocity_ms)) (\<lambda>d11.
     bind (float_column d11 ''displacement_m'') (\<lambda>displacement_m.
     bind (assign_array d11 ''detrended_displacement_m''
             (detrend_constant lib displacement_m)) (\<lambda>d12.
     bind (butterHighpassFilter lib d12 ''detrended_displacement_m''
             ''highpassed_displacement_m'') (\<lambda>d13.
     bind (float_column d13 ''highpassed_displacement_m'') (\<lambda>highpassed_displacement_m.
     bind (assign_series d13 ''highpassed_displacement_cm''
             (map convertMToCm highpassed_displacement_m)) (\<lambda>d14.
     bind (getStats_column d14 ''offset_g'') (\<lambda>s1.
     bind (getStats_column d14 ''bandpassed_g'') (\<lambda>s2.
     bind (getStats_column d14 ''detrended_velocity_cms'') (\<lambda>s3.
     bind (getStats_column d14 ''highpassed_displacement_cm'') (\<lambda>s4.
       Inr \<lparr>df = d14, sensitivity = sens, accOffsetStats = s1, accBandpassedStats = s2,
            velStats = s3, dispStats = s4\<rparr>))))))))))))))))))))))))))"

subsection \<open>The columns, stage by stage\<close>

text \<open>
  The columns of one sensor channel as the stage list of the specification (section 4.4,
  stages 2 to 11) describes them, each computed from the columns of the stages before it:
  the two padded columns, the four columns computed from them before truncation, the
  velocity, and the six columns computed after truncation. This definition follows the
  specification; \<open>Conversion_init\<close> above follows the code.
\<close>

definition cut :: "'a list \<Rightarrow> 'a list" where
  \<comment> \<open>stage 8: the rows of the closed range \<open>[6000, 40500]\<close>, relabelled from 0\<close>
  "cut xs = map ((!) xs) [6000 ..< min (length xs) 40501]"

definition stage_columns :: "scipy_signal \<Rightarrow> rat \<Rightarrow> (string \<times> int) list \<Rightarrow> frame" where
  "stage_columns lib sens samples =
     (let timestamp = replicate 500 NoneCell @ map (\<lambda>s. StrCell (fst s)) samples
                        @ replicate 500 NoneCell;
          g = replicate 500 0 @ map (\<lambda>s. convertCountToG sens (snd s)) samples
                @ replicate 500 0;
          offset_g = detrend_constant lib g;
          acc_ms2 = map convertGToMetric offset_g;
          bandpassed_g = lfilter_band lib offset_g;
          bandpassed_ms2 = lfilter_band lib acc_ms2;
          velocity_ms = integrateSeries dt bandpassed_ms2;
          detrended_velocity_ms = detrend_constant lib (cut velocity_ms);
          detrended_velocity_cms = map convertMToCm detrended_velocity_ms;
          displacement_m = integrateSeries dt detrended_velocity_ms;
          detrended_displacement_m = detrend_constant lib displacement_m;
          highpassed_displacement_m = lfilter_high lib detrended_displacement_m;
          highpassed_displacement_cm = map convertMToCm highpassed_displacement_m
      in [(''timestamp'', cut timestamp),
          (''g'', map FloatCell (cut g)),
          (''offset_g'', map FloatCell (cut offset_g)),
          (''acc_ms2'', map FloatCell (cut acc_ms2)),
          (''bandpassed_g'', map FloatCell (cut bandpassed_g)),
          (''bandpassed_ms2'', map FloatCell (cut bandpassed_ms2)),
          (''velocity_ms'', map FloatCell (cut velocity_ms)),
          (''detrended_velocity_ms'', map FloatCell detrended_velocity_ms),
          (''detrended_velocity_cms'', map FloatCell detrended_velocity_cms),
          (''displacement_m'', map FloatCell displacement_m),
          (''detrended_displacement_m'', map FloatCell detrended_displacement_m),
          (''highpassed_displacement_m'', map FloatCell highpassed_displacement_m),
          (''highpassed_displacement_cm'', map FloatCell highpassed_displacement_cm)])"

section \<open>Properties of the float model\<close>

lemma bit_length_bounds:
  "0 < n \<Longrightarrow> 2 ^ (bit_length n - 1) \<le> n \<and> n < 2 ^ bit_length n"
proof (induction n rule: bit_length.induct)
  case (1 n)
  show ?case
  proof (cases "n div 2 = 0")
    case True
    with "1.prems" have "n = 1" by (simp add: div_eq_0_iff)
    then show ?thesis by (simp add: bit_length.simps)
  next
    case False
    then have pos: "0 < n div 2" by simp
    from "1.prems" have n0: "n \<noteq> 0" by simp
    from "1.IH" [OF n0 pos]
    have lo: "2 ^ (bit_length (n div 2) - 1) \<le> n div 2"
      and hi: "n div 2 < 2 ^ bit_length (n div 2)" by simp_all
    have bl: "bit_length n = Suc (bit_length (n div 2))"
      using n0 by (simp add: bit_length.simps [of n])
    have blpos: "0 < bit_length (n div 2)"
      using pos by (simp add: bit_length.simps [of "n div 2"])
    have "2 ^ (bit_length n - 1) = 2 * 2 ^ (bit_length (n div 2) - 1)"
      using bl blpos by (cases "bit_length (n div 2)") simp_all
    also have "\<dots> \<le> 2 * (n div 2)" using lo by simp
    also have "\<dots> \<le> n" by simp
    finally have A: "2 ^ (bit_length n - 1) \<le> n" .
    have "n < 2 * (n div 2) + 2" by presburger
    also have "\<dots> \<le> 2 * 2 ^ bit_length (n div 2)" using hi by simp
    finally have B: "n < 2 ^ bit_length n" using bl by simp
    from A B show ?thesis by simp
  qed
qed

lemma binade_bounds:
  assumes "x \<noteq> 0"
  shows "2 powi (binade x) \<le> \<bar>x\<bar> \<and> \<bar>x\<bar> < 2 powi (binade x + 1)"
proof -
  obtain p q where pq: "quotient_of x = (p, q)" by (cases "quotient_of x")
  then have q: "0 < q" and x: "x = of_int p / of_int q"
    using quotient_of_denom_pos quotient_of_div by blast+
  from assms x have p: "p \<noteq> 0" by auto
  define a where "a = bit_length (nat \<bar>p\<bar>)"
  define b where "b = bit_length (nat q)"
  define k where "k = int a - int b"
  have pa: "2 ^ (a - 1) \<le> nat \<bar>p\<bar>" "nat \<bar>p\<bar> < 2 ^ a"
    using bit_length_bounds [of "nat \<bar>p\<bar>"] p by (simp_all add: a_def)
  have qb: "2 ^ (b - 1) \<le> nat q" "nat q < 2 ^ b"
    using bit_length_bounds [of "nat q"] q by (simp_all add: b_def)
  have apos: "0 < a" using pa(2) p by (cases a) auto
  have bpos: "0 < b" using qb(2) q by (cases b) auto
  have absx: "\<bar>x\<bar> = rat_of_nat (nat \<bar>p\<bar>) / rat_of_nat (nat q)"
    using q by (simp add: x)
  have qpos: "0 < rat_of_nat (nat q)" using q by simp
  have P1: "(2::rat) ^ (a - 1) \<le> rat_of_nat (nat \<bar>p\<bar>)"
    using pa(1) by (metis of_nat_le_iff of_nat_numeral of_nat_power)
  have P2: "rat_of_nat (nat \<bar>p\<bar>) < 2 ^ a"
    using pa(2) by (metis of_nat_less_iff of_nat_numeral of_nat_power)
  have Q1: "(2::rat) ^ (b - 1) \<le> rat_of_nat (nat q)"
    using qb(1) by (metis of_nat_le_iff of_nat_numeral of_nat_power)
  have Q2: "rat_of_nat (nat q) < 2 ^ b"
    using qb(2) by (metis of_nat_less_iff of_nat_numeral of_nat_power)
  have up: "\<bar>x\<bar> < 2 powi (k + 1)"
  proof -
    have "\<bar>x\<bar> < 2 ^ a / rat_of_nat (nat q)"
      unfolding absx using P2 qpos by (simp add: divide_strict_right_mono)
    also have "\<dots> \<le> 2 ^ a / 2 ^ (b - 1)"
      using Q1 by (simp add: frac_le)
    also have "\<dots> = 2 powi (int a - int (b - 1))"
      by (simp add: power_int_diff)
    also have "int a - int (b - 1) = k + 1" using bpos by (simp add: k_def)
    finally show ?thesis .
  qed
  have lo: "2 powi (k - 1) \<le> \<bar>x\<bar>"
  proof -
    have ek: "k - 1 = int (a - 1) - int b"
      using apos unfolding k_def by linarith
    have "2 powi (k - 1) = (2::rat) powi (int (a - 1) - int b)"
      by (simp only: ek)
    also have "\<dots> = 2 ^ (a - 1) / 2 ^ b" by (simp add: power_int_diff)
    also have "\<dots> \<le> rat_of_nat (nat \<bar>p\<bar>) / 2 ^ b"
      using P1 by (simp add: divide_right_mono)
    also have "\<dots> \<le> rat_of_nat (nat \<bar>p\<bar>) / rat_of_nat (nat q)"
      using Q2 qpos by (simp add: frac_le)
    finally show ?thesis by (simp add: absx)
  qed
  have bin: "binade x = (if 2 powi k \<le> \<bar>x\<bar> then k else k - 1)"
    by (simp add: binade_def pq k_def a_def b_def Let_def)
  show ?thesis
  proof (cases "2 powi k \<le> \<bar>x\<bar>")
    case True
    with bin up show ?thesis by simp
  next
    case False
    with bin lo show ?thesis by simp
  qed
qed

lemma binade_unique:
  assumes "2 powi e \<le> \<bar>x\<bar>" and "\<bar>x\<bar> < 2 powi (e + 1)"
  shows "binade x = e"
proof -
  have x0: "x \<noteq> 0"
  proof
    assume "x = 0"
    with assms(1) have "2 powi e \<le> (0::rat)" by simp
    moreover have "(0::rat) < 2 powi e" by simp
    ultimately show False by linarith
  qed
  note b = binade_bounds [OF x0]
  have lt1: "(2::rat) powi binade x < 2 powi (e + 1)" using b assms by linarith
  have A: "binade x < e + 1"
  proof (rule ccontr)
    assume "\<not> binade x < e + 1"
    then have "(2::rat) powi (e + 1) \<le> 2 powi binade x"
      by (intro power_int_increasing) simp_all
    with lt1 show False by linarith
  qed
  have lt2: "(2::rat) powi e < 2 powi (binade x + 1)" using b assms by linarith
  have B: "e < binade x + 1"
  proof (rule ccontr)
    assume "\<not> e < binade x + 1"
    then have "(2::rat) powi (binade x + 1) \<le> 2 powi e"
      by (intro power_int_increasing) simp_all
    with lt2 show False by linarith
  qed
  from A B show ?thesis by simp
qed

lemma round_half_even_eqI:
  assumes "\<bar>y - of_int m\<bar> < 1 / 2"
  shows "round_half_even y = m"
proof -
  have "\<lfloor>y\<rfloor> = m \<or> \<lfloor>y\<rfloor> = m - 1" using assms by linarith
  then show ?thesis
  proof
    assume f: "\<lfloor>y\<rfloor> = m"
    have "y - of_int \<lfloor>y\<rfloor> < 1 / 2" unfolding f using assms by linarith
    then show ?thesis using f by (simp add: round_half_even_def Let_def)
  next
    assume f: "\<lfloor>y\<rfloor> = m - 1"
    have "rat_of_int (m - 1) = of_int m - 1" by simp
    then have "1 / 2 < y - of_int \<lfloor>y\<rfloor>" unfolding f using assms by linarith
    then show ?thesis using f by (simp add: round_half_even_def Let_def)
  qed
qed

lemma fl_eqI:
  assumes "2 powi (e + 52) \<le> \<bar>x\<bar>" and "\<bar>x\<bar> < 2 powi (e + 53)"
    and "\<bar>x / 2 powi e - of_int m\<bar> < 1 / 2"
  shows "fl x = of_int m * 2 powi e"
proof -
  have x0: "x \<noteq> 0"
  proof
    assume "x = 0"
    with assms(1) have "2 powi (e + 52) \<le> (0::rat)" by simp
    moreover have "(0::rat) < 2 powi (e + 52)" by simp
    ultimately show False by linarith
  qed
  have "binade x = e + 52"
    using assms(1,2) by (intro binade_unique) (simp_all add: add.commute add.left_commute)
  then show ?thesis
    using x0 round_half_even_eqI [OF assms(3)] by (simp add: fl_def Let_def)
qed

subsection \<open>Floats that are rounded to themselves\<close>

lemma round_half_even_of_int: "round_half_even (of_int m) = m"
  by (rule round_half_even_eqI) simp

lemma power_int_less_exp:
  assumes "(2::rat) powi a < 2 powi b"
  shows "a < b"
proof (rule ccontr)
  assume "\<not> a < b"
  then have "(2::rat) powi b \<le> 2 powi a"
    by (intro power_int_increasing) simp_all
  with assms show False by linarith
qed

lemma power_int_shift: "(2::rat) powi (a + int n) = 2 ^ n * 2 powi a"
  by (simp add: power_int_add)

lemma normalise:
  assumes x: "x = of_int m * 2 powi e" and m0: "m \<noteq> 0" and m: "\<bar>m\<bar> < 2 ^ 53"
  shows "\<exists>M E. E = binade x - 52 \<and> x = of_int M * 2 powi E \<and> 2 ^ 52 \<le> \<bar>M\<bar> \<and> \<bar>M\<bar> < 2 ^ 53"
proof -
  define E where "E = binade x - 52"
  from x m0 have x0: "x \<noteq> 0" by simp
  have b: "2 powi (E + 52) \<le> \<bar>x\<bar>" "\<bar>x\<bar> < 2 powi (E + 53)"
    using binade_bounds [OF x0] by (simp_all add: E_def add.commute)
  have absx: "\<bar>x\<bar> = of_int \<bar>m\<bar> * 2 powi e" by (simp add: x abs_mult)
  have "rat_of_int \<bar>m\<bar> < rat_of_int (2 ^ 53)"
    using m by (simp only: of_int_less_iff)
  then have "of_int \<bar>m\<bar> < (2::rat) ^ 53" by simp
  then have "\<bar>x\<bar> < 2 ^ 53 * 2 powi e"
    unfolding absx by (intro mult_strict_right_mono) simp_all
  also have "\<dots> = 2 powi (e + 53)" using power_int_shift [of e 53] by simp
  finally have "(2::rat) powi (E + 52) < 2 powi (e + 53)" using b by linarith
  then have "E + 52 < e + 53" by (rule power_int_less_exp)
  then have k: "0 \<le> e - E" by simp
  define M where "M = m * 2 ^ nat (e - E)"
  have "(2::rat) powi e = 2 powi (E + int (nat (e - E)))" using k by simp
  also have "\<dots> = 2 ^ nat (e - E) * 2 powi E" by (rule power_int_shift)
  finally have pe: "(2::rat) powi e = 2 ^ nat (e - E) * 2 powi E" .
  have xM: "x = of_int M * 2 powi E"
    unfolding x pe M_def by simp
  have pos: "(0::rat) < 2 powi E" by simp
  have absM: "\<bar>x\<bar> = of_int \<bar>M\<bar> * 2 powi E" unfolding xM by (simp add: abs_mult)
  have "(2::rat) ^ 52 * 2 powi E \<le> of_int \<bar>M\<bar> * 2 powi E"
    using b(1) unfolding absM power_int_shift [of E 52, simplified] by simp
  with pos have "rat_of_int (2 ^ 52) \<le> of_int \<bar>M\<bar>" by simp
  then have lo: "2 ^ 52 \<le> \<bar>M\<bar>"
    by (simp only: of_int_le_iff)
  have "of_int \<bar>M\<bar> * 2 powi E < (2::rat) ^ 53 * 2 powi E"
    using b(2) unfolding absM power_int_shift [of E 53, simplified] by simp
  with pos have "of_int \<bar>M\<bar> < rat_of_int (2 ^ 53)" by simp
  then have hi: "\<bar>M\<bar> < 2 ^ 53"
    by (simp only: of_int_less_iff)
  from xM lo hi E_def show ?thesis by blast
qed

lemma fl_representable:
  assumes x: "x = of_int m * 2 powi e" and m: "\<bar>m\<bar> < 2 ^ 53"
  shows "fl x = x"
proof (cases "m = 0")
  case True
  with x show ?thesis by (simp add: fl_def)
next
  case False
  from normalise [OF x False m] obtain M E where
    E: "E = binade x - 52" and xM: "x = of_int M * 2 powi E" by blast
  from x False have x0: "x \<noteq> 0" by simp
  have "x / 2 powi E = of_int M" unfolding xM by simp
  then have "round_half_even (x / 2 powi E) = M"
    by (simp only: round_half_even_of_int)
  then have "fl x = of_int M * 2 powi E"
    using x0 by (simp add: fl_def Let_def E [symmetric])
  then show ?thesis by (simp only: xM [symmetric])
qed

lemma fl_of_int: "\<bar>c\<bar> < 2 ^ 53 \<Longrightarrow> fl (of_int c) = of_int c"
  by (rule fl_representable [where e = 0]) simp_all

lemma fl_scaled:
  assumes x: "x = of_int m * 2 powi e" and m: "\<bar>m\<bar> < 2 ^ 53"
  shows "fl (x * (1 + 1 / 2 ^ 54)) = x"
proof (cases "m = 0")
  case True
  with x show ?thesis by (simp add: fl_def)
next
  case False
  from normalise [OF x False m] obtain M E where
    xM: "x = of_int M * 2 powi E" and lo: "2 ^ 52 \<le> \<bar>M\<bar>" and hi: "\<bar>M\<bar> < 2 ^ 53" by blast
  have pos: "(0::rat) < 2 powi E" by simp
  have "rat_of_int (2 ^ 52) \<le> of_int \<bar>M\<bar>"
    using lo by (simp only: of_int_le_iff)
  then have Mlo: "(2::rat) ^ 52 \<le> of_int \<bar>M\<bar>" by simp
  from hi have "\<bar>M\<bar> \<le> 2 ^ 53 - 1" by simp
  then have "rat_of_int \<bar>M\<bar> \<le> of_int (2 ^ 53 - 1)"
    by (simp only: of_int_le_iff)
  then have Mhi: "of_int \<bar>M\<bar> \<le> (2::rat) ^ 53 - 1" by simp
  define P where "P = x * (1 + 1 / 2 ^ 54)"
  have absP: "\<bar>P\<bar> = of_int \<bar>M\<bar> * (1 + 1 / 2 ^ 54) * 2 powi E"
    unfolding P_def xM by (simp add: abs_mult)
  have "fl P = of_int M * 2 powi E"
  proof (rule fl_eqI)
    have "(2::rat) powi (E + 52) = 2 ^ 52 * 2 powi E"
      using power_int_shift [of E 52] by simp
    also have "\<dots> \<le> of_int \<bar>M\<bar> * (1 + 1 / 2 ^ 54) * 2 powi E"
      using Mlo pos by (intro mult_right_mono) simp_all
    finally show "2 powi (E + 52) \<le> \<bar>P\<bar>" by (simp only: absP)
    have "of_int \<bar>M\<bar> * (1 + 1 / 2 ^ 54) < (2::rat) ^ 53"
      using Mhi by simp
    then have "of_int \<bar>M\<bar> * (1 + 1 / 2 ^ 54) * 2 powi E < (2::rat) ^ 53 * 2 powi E"
      using pos by (intro mult_strict_right_mono)
    also have "(2::rat) ^ 53 * 2 powi E = 2 powi (E + 53)"
      using power_int_shift [of E 53] by simp
    finally show "\<bar>P\<bar> < 2 powi (E + 53)" by (simp only: absP)
    have "P / 2 powi E = of_int M * (1 + 1 / 2 ^ 54)"
      unfolding P_def xM by simp
    then have d: "P / 2 powi E - of_int M = of_int M / 2 ^ 54"
      by (simp add: algebra_simps)
    have bound: "\<bar>rat_of_int M / 2 ^ 54\<bar> < 1 / 2"
      using Mhi by (simp add: abs_divide)
    show "\<bar>P / 2 powi E - of_int M\<bar> < 1 / 2"
      unfolding d by (rule bound)
  qed
  then show ?thesis by (simp only: xM [symmetric] P_def)
qed


subsection \<open>Values of float expressions\<close>

text \<open>
  Each value is obtained from \<open>fl_eqI\<close> with the significand and the exponent of the
  result written out.
\<close>

lemma fl_1: "fl 1 = 1"
proof -
  have "fl 1 = of_int (4503599627370496) * 2 powi (-52)"
    by (rule fl_eqI) (simp_all add: power_int_minus)
  then show ?thesis by (simp add: power_int_minus)
qed

lemma fl_2: "fl 2 = 2"
proof -
  have "fl 2 = of_int (4503599627370496) * 2 powi (-51)"
    by (rule fl_eqI) (simp_all add: power_int_minus)
  then show ?thesis by (simp add: power_int_minus)
qed

lemma fl_100: "fl 100 = 100"
proof -
  have "fl 100 = of_int (7036874417766400) * 2 powi (-46)"
    by (rule fl_eqI) (simp_all add: power_int_minus)
  then show ?thesis by (simp add: power_int_minus)
qed

lemma fl_5_2: "fl (5 / 2) = 5 / 2"
proof -
  have "fl (5 / 2) = of_int (5629499534213120) * 2 powi (-51)"
    by (rule fl_eqI) (simp_all add: power_int_minus)
  then show ?thesis by (simp add: power_int_minus)
qed

lemma fl_5_4: "fl (5 / 4) = 5 / 4"
proof -
  have "fl (5 / 4) = of_int (5629499534213120) * 2 powi (-52)"
    by (rule fl_eqI) (simp_all add: power_int_minus)
  then show ?thesis by (simp add: power_int_minus)
qed

lemma fl_5_8: "fl (5 / 8) = 5 / 8"
proof -
  have "fl (5 / 8) = of_int (5629499534213120) * 2 powi (-53)"
    by (rule fl_eqI) (simp_all add: power_int_minus)
  then show ?thesis by (simp add: power_int_minus)
qed

lemma fl_8388608: "fl 8388608 = 8388608"
proof -
  have "fl 8388608 = of_int (4503599627370496) * 2 powi (-29)"
    by (rule fl_eqI) (simp_all add: power_int_minus)
  then show ?thesis by (simp add: power_int_minus)
qed

lemma count_scale: "fdiv (5 / 2) 8388608 = 5 / 16777216"
proof -
  have "fdiv (5 / 2) 8388608 = of_int (5629499534213120) * 2 powi (-74)"
    unfolding fdiv_def
    by (rule fl_eqI) (simp_all add: power_int_minus)
  then show ?thesis by (simp add: power_int_minus)
qed

lemma recip_5_4: "fdiv 1 (5 / 4) = 3602879701896397 / 4503599627370496"
proof -
  have "fdiv 1 (5 / 4) = of_int (7205759403792794) * 2 powi (-53)"
    unfolding fdiv_def
    by (rule fl_eqI) (simp_all add: power_int_minus)
  then show ?thesis by (simp add: power_int_minus)
qed

lemma literal_a: "fl (- 9423971176147461 / 10 ^ 18) = - 39527 / 4194304"
proof -
  have "fl (- 9423971176147461 / 10 ^ 18) = of_int (-5432549513887744) * 2 powi (-59)"
    by (rule fl_eqI) (simp_all add: power_int_minus)
  then show ?thesis by (simp add: power_int_minus)
qed

lemma literal_b: "fl (19669532775878906 / 10 ^ 19) = 8250 / 4194304"
proof -
  have "fl (19669532775878906 / 10 ^ 19) = of_int (4535485464576000) * 2 powi (-61)"
    by (rule fl_eqI) (simp_all add: power_int_minus)
  then show ?thesis by (simp add: power_int_minus)
qed

section \<open>Count to g\<close>

lemma recip_5_8: "fdiv 1 (5 / 8) = 3602879701896397 / 2251799813685248"
proof -
  have "fdiv 1 (5 / 8) = of_int (7205759403792794) * 2 powi (-52)"
    unfolding fdiv_def
    by (rule fl_eqI) (simp_all add: power_int_minus)
  then show ?thesis by (simp add: power_int_minus)
qed

lemma fl_count: "\<bar>c\<bar> < 2 ^ 31 \<Longrightarrow> fl (of_int c) = of_int c"
  by (rule fl_of_int) simp

lemma fmul_count_scale:
  assumes "\<bar>c\<bar> < 2 ^ 31"
  shows "fmul (of_int c) (5 / 16777216) = of_int c * 5 / 16777216"
proof -
  have "fl (of_int c * (5 / 16777216)) = of_int c * (5 / 16777216)"
  proof (rule fl_representable)
    show "of_int c * (5 / 16777216) = rat_of_int (5 * c) * 2 powi (- 24)"
      by (simp add: power_int_minus)
    show "\<bar>5 * c\<bar> < 2 ^ 53" using assms by simp
  qed
  then show ?thesis by (simp add: fmul_def)
qed

lemma convertCountToG_ground:
  assumes "\<bar>c\<bar> < 2 ^ 31"
  shows "convertCountToG (5 / 4) c = of_int c / 4194304"
proof -
  have "fl (of_int c / 4194304 * (1 + 1 / 2 ^ 54)) = of_int c / 4194304"
  proof (rule fl_scaled)
    show "of_int c / 4194304 = rat_of_int c * 2 powi (- 22)"
      by (simp add: power_int_minus)
    show "\<bar>c\<bar> < 2 ^ 53" using assms by simp
  qed
  moreover have "of_int c * 5 / 16777216 * (3602879701896397 / 4503599627370496)
      = rat_of_int c / 4194304 * (1 + 1 / 2 ^ 54)"
    by simp
  ultimately have "fmul (of_int c * 5 / 16777216) (3602879701896397 / 4503599627370496)
      = of_int c / 4194304"
    by (simp only: fmul_def)
  then show ?thesis
    by (simp only: convertCountToG_def fl_count [OF assms] fl_5_2 fl_8388608 fl_1 count_scale
        recip_5_4 fmul_count_scale [OF assms])
qed

lemma convertCountToG_upper:
  assumes "\<bar>c\<bar> < 2 ^ 31"
  shows "convertCountToG (5 / 8) c = of_int c / 2097152"
proof -
  have "fl (of_int c / 2097152 * (1 + 1 / 2 ^ 54)) = of_int c / 2097152"
  proof (rule fl_scaled)
    show "of_int c / 2097152 = rat_of_int c * 2 powi (- 21)"
      by (simp add: power_int_minus)
    show "\<bar>c\<bar> < 2 ^ 53" using assms by simp
  qed
  moreover have "of_int c * 5 / 16777216 * (3602879701896397 / 2251799813685248)
      = rat_of_int c / 2097152 * (1 + 1 / 2 ^ 54)"
    by simp
  ultimately have "fmul (of_int c * 5 / 16777216) (3602879701896397 / 2251799813685248)
      = of_int c / 2097152"
    by (simp only: fmul_def)
  then show ?thesis
    by (simp only: convertCountToG_def fl_count [OF assms] fl_5_2 fl_8388608 fl_1 count_scale
        recip_5_8 fmul_count_scale [OF assms])
qed

text \<open>
  Claim C4. For every integer count \<open>c\<close>, \<open>convertCountToG\<close> is the float expression
  \<^verbatim>\<open>c * (2.5 / 8388608) * (1 / sensitivity)\<close>, evaluated from left to right. For a count
  of 32 bits and either sensitivity, no rounding error is left: the float returned is the
  rational number \<open>c * (2.5 / 8388608) * (1 / sensitivity)\<close> itself. With sensitivity 1.25
  the count \<open>-39527\<close> gives the float written \<^verbatim>\<open>-0.009423971176147461\<close> and the count
  \<open>8250\<close> gives the float written \<^verbatim>\<open>0.0019669532775878906\<close>.
\<close>

theorem convertCountToG_formula:
  "convertCountToG sens c =
     fmul (fmul (fl (of_int c)) (fdiv (fl (5 / 2)) (fl 8388608))) (fdiv (fl 1) sens)
   \<and> (\<bar>c\<bar> < 2 ^ 31 \<longrightarrow>
        convertCountToG (fl (5 / 4)) c = of_int c * (5 / 2 / 8388608) * (1 / (5 / 4))
        \<and> convertCountToG (fl (5 / 8)) c = of_int c * (5 / 2 / 8388608) * (1 / (5 / 8)))
   \<and> convertCountToG (fl (5 / 4)) (- 39527) = fl (- 9423971176147461 / 10 ^ 18)
   \<and> convertCountToG (fl (5 / 4)) 8250 = fl (19669532775878906 / 10 ^ 19)"
proof -
  have general: "convertCountToG (fl (5 / 4)) k = of_int k * (5 / 2 / 8388608) * (1 / (5 / 4))
      \<and> convertCountToG (fl (5 / 8)) k = of_int k * (5 / 2 / 8388608) * (1 / (5 / 8))"
    if "\<bar>k\<bar> < 2 ^ 31" for k
    using convertCountToG_ground [OF that] convertCountToG_upper [OF that]
    by (simp add: fl_5_4 fl_5_8)
  have "convertCountToG (fl (5 / 4)) (- 39527) = fl (- 9423971176147461 / 10 ^ 18)"
    using general [of "- 39527"] literal_a by simp
  moreover have "convertCountToG (fl (5 / 4)) 8250 = fl (19669532775878906 / 10 ^ 19)"
    using general [of 8250] literal_b by simp
  ultimately show ?thesis
    using general [of c] by (simp add: convertCountToG_def)
qed

theorem convertCountToG_formula_witness:
  "\<bar>- 39527\<bar> < (2 :: int) ^ 31
   \<and> convertCountToG (fl (5 / 4)) (- 39527) = - 39527 / 4194304
   \<and> convertCountToG (fl (5 / 8)) (- 39527) = - 39527 / 2097152"
  using convertCountToG_formula [of "fl (5 / 4)" "- 39527"] by simp

section \<open>Sensitivity and floor code\<close>

lemma contains_single: "contains [a] s = (a \<in> set s)"
  by (induction s) (auto simp add: contains.simps)

text \<open>
  Claim C5. For every string given as \<open>sensorCodeWithChannel\<close>: a code of the table
  \<open>SENSOR_CODES_WITH_CHANNELS\<close> that contains the letter \<open>F\<close> (far field or ground floor)
  gets the sensitivity 1.25, every other code of the table gets 0.625, and a string that
  is not in the table makes \<open>setSensitivity\<close> fail with \<open>InvalidSensitivity\<close>.
\<close>

theorem setSensitivity_cases:
  "(c \<in> set SENSOR_CODES_WITH_CHANNELS \<and> CHR ''F'' \<in> set c \<longrightarrow> setSensitivity c = Inr (5 / 4))
   \<and> (c \<in> set SENSOR_CODES_WITH_CHANNELS \<and> CHR ''F'' \<notin> set c \<longrightarrow> setSensitivity c = Inr (5 / 8))
   \<and> (c \<notin> set SENSOR_CODES_WITH_CHANNELS \<longrightarrow> setSensitivity c = Inl InvalidSensitivity)"
  by (simp add: setSensitivity_def Let_def contains_single fl_5_4 fl_5_8)

theorem setSensitivity_cases_witness:
  "''B4Fx'' \<in> set SENSOR_CODES_WITH_CHANNELS \<and> CHR ''F'' \<in> set ''B4Fx''
     \<and> setSensitivity ''B4Fx'' = Inr (5 / 4)
   \<and> ''N39y'' \<in> set SENSOR_CODES_WITH_CHANNELS \<and> CHR ''F'' \<notin> set ''N39y''
     \<and> setSensitivity ''N39y'' = Inr (5 / 8)
   \<and> ''B4F'' \<notin> set SENSOR_CODES_WITH_CHANNELS
     \<and> setSensitivity ''B4F'' = Inl InvalidSensitivity"
  using setSensitivity_cases [of "''B4Fx''"] setSensitivity_cases [of "''N39y''"]
    setSensitivity_cases [of "''B4F''"]
  by (simp add: SENSOR_CODES_WITH_CHANNELS_def)

text \<open>
  Claim C9, amended. For every token with a first character: \<open>getFloorCode\<close> returns
  \<open>GF\<close> when the token starts with \<open>F\<close>; \<open>L\<close> followed by the decimal digits of the token,
  read as a number, plus one, when it starts with \<open>N\<close> or \<open>S\<close> and holds at least one
  decimal digit; \<open>B\<close> followed by the decimal digits when it starts with \<open>B\<close>; and it fails
  with \<open>InvalidSensorCode\<close> when it starts with any other character.
\<close>

theorem getFloorCode_cases:
  "(c = CHR ''F'' \<longrightarrow> getFloorCode (c # cs) = Inr ''GF'')
   \<and> (c \<in> {CHR ''N'', CHR ''S''} \<and> getFloor (c # cs) \<noteq> [] \<longrightarrow>
        getFloorCode (c # cs) = Inr (''L'' @ py_str (decimal_value (getFloor (c # cs)) + 1)))
   \<and> (c = CHR ''B'' \<longrightarrow> getFloorCode (c # cs) = Inr (''B'' @ getFloor (c # cs)))
   \<and> (c \<notin> {CHR ''F'', CHR ''N'', CHR ''S'', CHR ''B''} \<longrightarrow>
        getFloorCode (c # cs) = Inl InvalidSensorCode)"
  by (auto simp add: getFloorCode_def py_int_def bind_def)

lemma str_nat_40: "str_nat 40 = ''40''"
  by (simp add: str_nat.simps [of 40] str_nat.simps [of 4])

theorem getFloorCode_cases_witness:
  "getFloorCode ''FFN'' = Inr ''GF''
   \<and> CHR ''N'' \<in> {CHR ''N'', CHR ''S''} \<and> getFloor ''N39x'' \<noteq> []
     \<and> getFloorCode ''N39x'' = Inr ''L40''
   \<and> getFloorCode ''B4Fx'' = Inr ''B4''
   \<and> CHR ''X'' \<notin> {CHR ''F'', CHR ''N'', CHR ''S'', CHR ''B''}
     \<and> getFloorCode ''X39x'' = Inl InvalidSensorCode"
  using getFloorCode_cases [of "CHR ''F''" "''FN''"] getFloorCode_cases [of "CHR ''N''" "''39x''"]
    getFloorCode_cases [of "CHR ''B''" "''4Fx''"] getFloorCode_cases [of "CHR ''X''" "''39x''"]
  by (simp add: getFloor_def isdigit_def decimal_value_def digit_value_def py_str_def str_nat_40)

text \<open>
  As stated, the claim promises \<open>L\<close> and a number for every token that starts with \<open>N\<close> or
  \<open>S\<close>. The token \<open>Nx\<close> has no digit: \<^verbatim>\<open>int('')\<close> raises, and no floor code is returned.
\<close>

theorem getFloorCode_no_digits_counterexample:
  "getFloorCode ''Nx'' = Inl ValueError"
  by (simp add: getFloorCode_def getFloor_def isdigit_def py_int_def bind_def)

section \<open>File ordering\<close>

lemma count_concat_map:
  "count (mset (concat (map h cs))) f = sum_list (map (\<lambda>c. count (mset (h c)) f) cs)"
  by (induction cs) simp_all

lemma sum_list_if_const:
  "sum_list (map (\<lambda>c. if P c then n else 0) cs) = n * length (filter P cs)"
  by (induction cs) simp_all

lemma count_sortFilesBySensorCode:
  "count (mset (sortFilesBySensorCode files)) f =
     count (mset files) f * length (filter (\<lambda>code. contains code f) SENSOR_CODES)"
proof -
  have "count (mset (sortFilesBySensorCode files)) f =
          sum_list (map (\<lambda>code. if contains code f then count (mset files) f else 0) SENSOR_CODES)"
    unfolding sortFilesBySensorCode_def count_concat_map
    by (intro arg_cong [where f = sum_list] map_cong refl) simp
  then show ?thesis by (simp only: sum_list_if_const)
qed

lemma mset_sortFilesBySensorCode:
  assumes "\<forall>f \<in> set files. length (filter (\<lambda>code. contains code f) SENSOR_CODES) = 1"
  shows "mset (sortFilesBySensorCode files) = mset files"
proof (rule multiset_eqI)
  fix f
  show "count (mset (sortFilesBySensorCode files)) f = count (mset files) f"
  proof (cases "f \<in> set files")
    case True
    with assms show ?thesis by (simp add: count_sortFilesBySensorCode)
  next
    case False
    then have "count (mset files) f = 0" by (simp add: count_eq_zero_iff)
    then show ?thesis by (simp add: count_sortFilesBySensorCode)
  qed
qed

text \<open>
  Claim C7, amended. For every list of file names with one or two distinct timestamp
  tokens, in which every name contains exactly one of the eight codes of \<open>SENSOR_CODES\<close>,
  \<open>sortFiles\<close> returns a list, and this list is a permutation of the input: every input
  file appears in it exactly as often as in the input.
\<close>

theorem sortFiles_permutation:
  assumes "set_listing (map getTimeText inputFileList) uniqueTimeTuples"
    and "card (set (map getTimeText inputFileList)) \<in> {1, 2}"
    and "\<forall>f \<in> set inputFileList. length (filter (\<lambda>code. contains code f) SENSOR_CODES) = 1"
  shows "\<exists>sorted_files. sortFiles uniqueTimeTuples inputFileList = Inr (Some sorted_files)
           \<and> mset sorted_files = mset inputFileList"
proof -
  from assms(1) have len: "length uniqueTimeTuples = card (set (map getTimeText inputFileList))"
    by (metis distinct_card set_listing_def)
  have part: "mset (sortFilesBySensorCode (filter P inputFileList))
                = mset (filter P inputFileList)" for P
    using assms(3) by (intro mset_sortFilesBySensorCode) simp
  have whole: "mset (sortFilesBySensorCode inputFileList) = mset inputFileList"
    using assms(3) by (rule mset_sortFilesBySensorCode)
  from assms(2) len have "length uniqueTimeTuples = 1 \<or> length uniqueTimeTuples = 2" by simp
  then show ?thesis
  proof
    assume "length uniqueTimeTuples = 1"
    then show ?thesis by (simp add: sortFiles_def whole)
  next
    assume "length uniqueTimeTuples = 2"
    then show ?thesis by (simp add: sortFiles_def Let_def part)
  qed
qed

lemma time_B4Fx: "getTimeText ''20190926100000.ALZ.001.B4Fx.txt'' = (''10'', ''20190926100000'')"
  by (simp add: getTimeText_def split_last_def split_first_def)

lemma time_S39z: "getTimeText ''20190926110000.ALZ.003.S39z.txt'' = (''11'', ''20190926110000'')"
  by (simp add: getTimeText_def split_last_def split_first_def)

lemma time_X99x: "getTimeText ''20190926100000.ALZ.001.X99x.txt'' = (''10'', ''20190926100000'')"
  by (simp add: getTimeText_def split_last_def split_first_def)

lemma codes_B4Fx: "filter (\<lambda>code. contains code ''20190926100000.ALZ.001.B4Fx.txt'') SENSOR_CODES = [''B4F'']"
  by (simp add: SENSOR_CODES_def contains.simps)

lemma codes_S39z: "filter (\<lambda>code. contains code ''20190926110000.ALZ.003.S39z.txt'') SENSOR_CODES = [''S39'']"
  by (simp add: SENSOR_CODES_def contains.simps)

theorem sortFiles_permutation_witness:
  "set_listing (map getTimeText [''20190926110000.ALZ.003.S39z.txt'', ''20190926100000.ALZ.001.B4Fx.txt''])
      [(''11'', ''20190926110000''), (''10'', ''20190926100000'')]
   \<and> card (set (map getTimeText
        [''20190926110000.ALZ.003.S39z.txt'', ''20190926100000.ALZ.001.B4Fx.txt''])) = 2
   \<and> length (filter (\<lambda>code. contains code ''20190926110000.ALZ.003.S39z.txt'') SENSOR_CODES) = 1
   \<and> length (filter (\<lambda>code. contains code ''20190926100000.ALZ.001.B4Fx.txt'') SENSOR_CODES) = 1
   \<and> (\<exists>sorted_files.
         sortFiles [(''11'', ''20190926110000''), (''10'', ''20190926100000'')]
           [''20190926110000.ALZ.003.S39z.txt'', ''20190926100000.ALZ.001.B4Fx.txt'']
           = Inr (Some sorted_files)
         \<and> mset sorted_files
           = mset [''20190926110000.ALZ.003.S39z.txt'', ''20190926100000.ALZ.001.B4Fx.txt''])"
  using sortFiles_permutation [of "[''20190926110000.ALZ.003.S39z.txt'', ''20190926100000.ALZ.001.B4Fx.txt'']"
      "[(''11'', ''20190926110000''), (''10'', ''20190926100000'')]"]
  by (simp add: set_listing_def time_B4Fx time_S39z codes_B4Fx codes_S39z)

text \<open>
  As stated, the claim holds for every list of file names. A file whose name contains none
  of the eight codes is in no group of \<open>sortFilesBySensorCode\<close>, and is missing from the
  output.
\<close>

theorem sortFiles_unknown_code_counterexample:
  "set_listing (map getTimeText [''20190926100000.ALZ.001.X99x.txt'']) [(''10'', ''20190926100000'')]
   \<and> sortFiles [(''10'', ''20190926100000'')] [''20190926100000.ALZ.001.X99x.txt''] = Inr (Some [])
   \<and> mset [] \<noteq> mset [''20190926100000.ALZ.001.X99x.txt'']"
  by (simp add: set_listing_def time_X99x sortFiles_def sortFilesBySensorCode_def SENSOR_CODES_def
      contains.simps)

lemma sortFiles_other_counts:
  assumes "set_listing (map getTimeText inputFileList) uniqueTimeTuples"
    and "card (set (map getTimeText inputFileList)) \<noteq> 1"
    and "card (set (map getTimeText inputFileList)) \<noteq> 2"
  shows "sortFiles uniqueTimeTuples inputFileList = Inr None"
proof -
  from assms(1) have "length uniqueTimeTuples = card (set (map getTimeText inputFileList))"
    by (metis distinct_card set_listing_def)
  with assms(2,3) show ?thesis by (simp add: sortFiles_def Let_def)
qed

lemma time_12: "getTimeText ''20190926120000.ALZ.001.B4Fx.txt'' = (''12'', ''20190926120000'')"
  by (simp add: getTimeText_def split_last_def split_first_def)

lemma time_11: "getTimeText ''20190926110000.ALZ.001.B4Fx.txt'' = (''11'', ''20190926110000'')"
  by (simp add: getTimeText_def split_last_def split_first_def)

text \<open>
  Claim C8. For a file list whose number of distinct (hour, timestamp) pairs is neither 1
  nor 2, \<open>sortFiles\<close> is to signal an error instead of returning an ordered sequence. The
  code does not: its \<^verbatim>\<open>if\<close> has a branch for one pair and a branch for two, and no
  \<^verbatim>\<open>else\<close>. On three files of one sensor that start in three different hours, the
  three time tuples are distinct, no branch is taken, and the call returns \<^verbatim>\<open>None\<close>
  without raising.
\<close>

theorem sortFiles_three_hours:
  "set_listing
     (map getTimeText [''20190926100000.ALZ.001.B4Fx.txt'', ''20190926110000.ALZ.001.B4Fx.txt'',
        ''20190926120000.ALZ.001.B4Fx.txt''])
     [(''10'', ''20190926100000''), (''11'', ''20190926110000''), (''12'', ''20190926120000'')]
   \<and> sortFiles
       [(''10'', ''20190926100000''), (''11'', ''20190926110000''), (''12'', ''20190926120000'')]
       [''20190926100000.ALZ.001.B4Fx.txt'', ''20190926110000.ALZ.001.B4Fx.txt'',
        ''20190926120000.ALZ.001.B4Fx.txt'']
     = Inr None"
  by (simp add: set_listing_def time_B4Fx time_11 time_12 sortFiles_def)

section \<open>Trapezoidal integration\<close>

lemma length_integrate_loop:
  "length (integrate_loop h zs acc) = length acc + length zs"
  by (induction zs arbitrary: acc) simp_all

lemma integrate_loop_keeps:
  "i < length acc \<Longrightarrow> integrate_loop h zs acc ! i = acc ! i"
  by (induction zs arbitrary: acc) (simp_all add: nth_append)

lemma integrate_loop_step:
  assumes "acc \<noteq> []" and "length acc \<le> i" and "i < length acc + length zs"
  shows "integrate_loop h zs acc ! i =
           fadd (fdiv (fmul h (fadd (fst (zs ! (i - length acc))) (snd (zs ! (i - length acc)))))
                      (fl 2))
                (integrate_loop h zs acc ! (i - 1))"
  using assms
proof (induction zs arbitrary: acc)
  case Nil
  then show ?case by simp
next
  case (Cons z zs)
  let ?new = "fadd (fdiv (fmul h (fadd (fst z) (snd z))) (fl 2)) (last acc)"
  let ?acc = "acc @ [?new]"
  show ?case
  proof (cases "i = length acc")
    case True
    have a: "integrate_loop h (z # zs) acc ! i = ?new"
      using True by (simp add: integrate_loop_keeps)
    have "integrate_loop h (z # zs) acc ! (i - 1) = ?acc ! (i - 1)"
      using True Cons.prems(1) by (simp add: integrate_loop_keeps)
    also have "\<dots> = last acc"
      using True Cons.prems(1) by (simp add: nth_append last_conv_nth)
    finally show ?thesis using a True by simp
  next
    case False
    with Cons.prems have lo: "length ?acc \<le> i" and hi: "i < length ?acc + length zs"
      by simp_all
    have ne: "?acc \<noteq> []" by simp
    have idx: "(z # zs) ! (i - length acc) = zs ! (i - length ?acc)"
      using lo by (simp add: nth_Cons') 
    from Cons.IH [OF ne lo hi] idx show ?thesis by simp
  qed
qed

lemma integrateSeries_general:
  assumes "x \<noteq> []"
  shows "length (integrateSeries h x) = length x"
    and "integrateSeries h x ! 0 = 0"
    and "1 \<le> i \<Longrightarrow> i < length x \<Longrightarrow>
         integrateSeries h x ! i =
           fadd (integrateSeries h x ! (i - 1)) (fdiv (fmul h (fadd (x ! (i - 1)) (x ! i))) (fl 2))"
proof -
  from assms show "length (integrateSeries h x) = length x"
    by (cases x) (simp_all add: integrateSeries_def length_integrate_loop)
  show "integrateSeries h x ! 0 = 0"
    by (simp add: integrateSeries_def integrate_loop_keeps)
  assume i: "1 \<le> i" "i < length x"
  let ?zs = "zip x (tl x)"
  have len: "length ?zs = length x - 1" by simp
  have z: "?zs ! (i - 1) = (x ! (i - 1), x ! i)"
    using i by (simp add: nth_tl)
  have "integrateSeries h x ! i =
          fadd (fdiv (fmul h (fadd (fst (?zs ! (i - length [0::rat])))
                                   (snd (?zs ! (i - length [0::rat]))))) (fl 2))
               (integrateSeries h x ! (i - 1))"
    unfolding integrateSeries_def
    using i by (intro integrate_loop_step) simp_all
  then show "integrateSeries h x ! i =
           fadd (integrateSeries h x ! (i - 1)) (fdiv (fmul h (fadd (x ! (i - 1)) (x ! i))) (fl 2))"
    using z by (simp add: fadd_def add.commute)
qed

text \<open>
  Claim C1, amended. For every input series that is not empty, with \<open>dt = 1 / fs = 1 / 100\<close>,
  \<open>integrateSeries\<close> is the cumulative trapezoidal integral: the output \<open>y\<close> is as long as the
  input \<open>x\<close>, \<open>y[0] = 0\<close>, and \<open>y[i] = y[i-1] + dt * (x[i-1] + x[i]) / 2\<close> for every
  \<open>1 \<le> i < n\<close>, each operation being the float operation. The result is a function of the
  input sequence and of \<open>dt\<close> alone.
\<close>

theorem integrateSeries_trapezoid:
  assumes "x \<noteq> []"
  shows "length (integrateSeries dt x) = length x
         \<and> integrateSeries dt x ! 0 = 0
         \<and> (\<forall>i. 1 \<le> i \<and> i < length x \<longrightarrow>
               integrateSeries dt x ! i =
                 fadd (integrateSeries dt x ! (i - 1))
                      (fdiv (fmul dt (fadd (x ! (i - 1)) (x ! i))) 2))
         \<and> dt = fl (1 / 100)"
  using integrateSeries_general [OF assms, where h = dt]
  by (simp add: dt_def fs_def fdiv_def fl_1 fl_2 fl_100)

theorem integrateSeries_trapezoid_witness:
  "[1, 3] \<noteq> ([] :: rat list)
   \<and> length (integrateSeries dt [1, 3]) = length [1, 3 :: rat]
   \<and> integrateSeries dt [1, 3] ! 0 = 0
   \<and> integrateSeries dt [1, 3] ! 1 =
       fadd (integrateSeries dt [1, 3] ! 0) (fdiv (fmul dt (fadd 1 3)) 2)"
  using integrateSeries_trapezoid [of "[1, 3]"] by simp

text \<open>
  As stated, the claim holds for every input series. The empty series is integrated to the
  one-element series \<open>[0]\<close>, which is longer than the input.
\<close>

theorem integrateSeries_empty_counterexample:
  "integrateSeries dt [] = [0] \<and> length (integrateSeries dt []) \<noteq> length ([] :: rat list)"
  by (simp add: integrateSeries_def)

section \<open>Truncation\<close>

lemma truncate_rows_snoc:
  "truncate_rows b a (xs @ [x]) =
     truncate_rows b a xs @ (if b \<le> length xs \<and> length xs \<le> a then [x] else [])"
  by (simp add: truncate_rows_def enumerate_append_eq)

lemma length_truncate_rows:
  "length (truncate_rows b a xs) = min (length xs) (Suc a) - b"
proof (induction xs rule: rev_induct)
  case Nil
  show ?case by (simp add: truncate_rows_def)
next
  case (snoc x xs)
  then show ?case by (simp add: truncate_rows_snoc) arith
qed

lemma nth_truncate_rows:
  "j < length (truncate_rows b a xs) \<Longrightarrow> truncate_rows b a xs ! j = xs ! (b + j)"
proof (induction xs rule: rev_induct)
  case Nil
  then show ?case by (simp add: truncate_rows_def)
next
  case (snoc x xs)
  show ?case
  proof (cases "j < length (truncate_rows b a xs)")
    case True
    then have "b + j < length xs" by (simp add: length_truncate_rows)
    with True snoc.IH show ?thesis by (simp add: truncate_rows_snoc nth_append)
  next
    case False
    with snoc.prems have in_range: "b \<le> length xs \<and> length xs \<le> a"
      by (auto simp add: truncate_rows_snoc split: if_splits)
    with False snoc.prems have "j = length (truncate_rows b a xs)"
      by (simp add: truncate_rows_snoc)
    then have "b + j = length xs" using in_range by (simp add: length_truncate_rows)
    then show ?thesis
      using in_range \<open>j = length (truncate_rows b a xs)\<close> by (simp add: truncate_rows_snoc nth_append)
  qed
qed

lemma truncate_rows_take_drop:
  "truncate_rows b a xs = take (Suc a - b) (drop b xs)"
proof (rule nth_equalityI)
  show "length (truncate_rows b a xs) = length (take (Suc a - b) (drop b xs))"
    by (simp add: length_truncate_rows)
next
  fix j assume "j < length (truncate_rows b a xs)"
  then show "truncate_rows b a xs ! j = take (Suc a - b) (drop b xs) ! j"
    by (simp add: nth_truncate_rows length_truncate_rows)
qed

lemma map_of_removeExtraneousSamples:
  "map_of (removeExtraneousSamples d) name =
     map_option (truncate_rows ignoredSamples (40000 + zeroPadLength)) (map_of d name)"
  by (induction d) (auto simp add: removeExtraneousSamples_def Let_def)

lemma get_column_removeExtraneousSamples:
  assumes "get_column d name = Inr col"
  shows "get_column (removeExtraneousSamples d) name = Inr (truncate_rows 6000 40500 col)"
proof -
  from assms have "map_of d name = Some col"
    by (simp add: get_column_def split: option.splits)
  then show ?thesis
    by (simp add: get_column_def map_of_removeExtraneousSamples ignoredSamples_def
        zeroPadLength_def)
qed

text \<open>
  Claim C2, amended. \<open>removeExtraneousSamples\<close> keeps, of every column, exactly the cells whose
  row label lies in the closed range \<open>[6000, 40500]\<close>, in their order and relabelled from 0:
  cell \<open>j\<close> of the result is cell \<open>6000 + j\<close> of the column, and the result has
  \<open>min n 40501 - 6000\<close> cells for a column of \<open>n\<close> cells. This is
  \<open>(40000 + zeroPadLength) - ignoredLeadingSamples + 1 = 34501\<close> whenever the column has at
  least 40501 cells.
\<close>

theorem removeExtraneousSamples_window:
  assumes "get_column d name = Inr col"
  shows "\<exists>kept. get_column (removeExtraneousSamples d) name = Inr kept
           \<and> length kept = min (length col) 40501 - 6000
           \<and> (\<forall>j < length kept. kept ! j = col ! (6000 + j))
           \<and> (40501 \<le> length col \<longrightarrow> length kept = 34501)"
proof -
  let ?kept = "truncate_rows 6000 40500 col"
  have "get_column (removeExtraneousSamples d) name = Inr ?kept"
    using assms by (rule get_column_removeExtraneousSamples)
  moreover have len: "length ?kept = min (length col) 40501 - 6000"
    by (simp add: length_truncate_rows)
  moreover have "\<forall>j < length ?kept. ?kept ! j = col ! (6000 + j)"
    by (simp add: nth_truncate_rows)
  moreover have "40501 \<le> length col \<longrightarrow> length ?kept = 34501"
    using len by simp
  ultimately show ?thesis by blast
qed

theorem removeExtraneousSamples_window_witness:
  "get_column [(''g'', replicate 40501 (FloatCell 0))] ''g'' = Inr (replicate 40501 (FloatCell 0))
   \<and> (\<exists>kept. get_column (removeExtraneousSamples [(''g'', replicate 40501 (FloatCell 0))]) ''g''
                = Inr kept
          \<and> length kept = 34501
          \<and> kept ! 0 = replicate 40501 (FloatCell 0) ! 6000)"
proof -
  have g: "get_column [(''g'', replicate 40501 (FloatCell 0))] ''g''
             = Inr (replicate 40501 (FloatCell 0))"
    by (simp add: get_column_def)
  from removeExtraneousSamples_window [OF g] g show ?thesis
    by (simp only: length_replicate) auto
qed

text \<open>
  As stated, the claim has every truncated series 34501 cells long. A column of 7000 cells
  is truncated to its last 1000 cells.
\<close>

theorem removeExtraneousSamples_short_counterexample:
  "get_column (removeExtraneousSamples [(''g'', replicate 7000 (FloatCell 0))]) ''g''
     = Inr (replicate 1000 (FloatCell 0))
   \<and> length (replicate 1000 (FloatCell 0)) \<noteq> 34501"
proof -
  have g: "get_column [(''g'', replicate 7000 (FloatCell 0))] ''g''
             = Inr (replicate 7000 (FloatCell 0))"
    by (simp add: get_column_def)
  have "truncate_rows 6000 40500 (replicate 7000 (FloatCell 0)) = replicate 1000 (FloatCell 0)"
    by (simp add: truncate_rows_take_drop)
  with get_column_removeExtraneousSamples [OF g] show ?thesis by simp
qed

section \<open>Peak statistics\<close>

lemma first_index_Some:
  "v \<in> set xs \<Longrightarrow>
     \<exists>i. first_index v xs = Some i \<and> i < length xs \<and> xs ! i = v \<and> (\<forall>j < i. xs ! j \<noteq> v)"
proof (induction xs)
  case Nil
  then show ?case by simp
next
  case (Cons x xs)
  show ?case
  proof (cases "x = v")
    case True
    then show ?thesis by simp
  next
    case False
    with Cons.prems have "v \<in> set xs" by simp
    from Cons.IH [OF this] obtain i where i: "first_index v xs = Some i" "i < length xs"
      "xs ! i = v" "\<forall>j < i. xs ! j \<noteq> v" by blast
    have "\<forall>j < Suc i. (x # xs) ! j \<noteq> v"
      using False i(4) by (auto simp add: nth_Cons split: nat.splits)
    with False i show ?thesis by simp
  qed
qed

lemma getStats_peak:
  assumes "col \<noteq> []"
  defines "lo \<equiv> Min (set col)" and "hi \<equiv> Max (set col)"
  defines "peak \<equiv> (if \<bar>hi\<bar> < \<bar>lo\<bar> then lo else hi)"
  shows "\<exists>i. getStats col = Inr \<lparr>index = i, rawValue = peak, roundedValue = np_round peak 4\<rparr>
           \<and> i < length col \<and> col ! i = peak \<and> (\<forall>j < i. col ! j \<noteq> peak)"
proof -
  from assms(1) obtain x xs where col: "col = x # xs" by (cases col) auto
  have lo: "fold min xs x = lo" unfolding lo_def col by (rule Min.set_eq_fold [symmetric])
  have hi: "fold max xs x = hi" unfolding hi_def col by (rule Max.set_eq_fold [symmetric])
  have "lo \<in> set col" unfolding lo_def using assms(1) by (intro Min_in) simp_all
  from first_index_Some [OF this] obtain a where a: "first_index lo col = Some a"
    "a < length col" "col ! a = lo" "\<forall>j < a. col ! j \<noteq> lo" by blast
  have "hi \<in> set col" unfolding hi_def using assms(1) by (intro Max_in) simp_all
  from first_index_Some [OF this] obtain b where b: "first_index hi col = Some b"
    "b < length col" "col ! b = hi" "\<forall>j < b. col ! j \<noteq> hi" by blast
  have stats: "getStats col =
      Inr \<lparr>index = (if \<bar>hi\<bar> < \<bar>lo\<bar> then a else b), rawValue = peak,
           roundedValue = np_round peak 4\<rparr>"
    using a(1) b(1) lo hi unfolding getStats_def peak_def
    by (simp add: col Let_def del: first_index.simps)
  show ?thesis
  proof (cases "\<bar>hi\<bar> < \<bar>lo\<bar>")
    case True
    with stats a show ?thesis by (simp add: peak_def)
  next
    case False
    with stats b show ?thesis by (simp add: peak_def)
  qed
qed

lemma round_half_even_error: "\<bar>of_int (round_half_even y) - y\<bar> \<le> 1 / 2"
proof -
  have "of_int \<lfloor>y\<rfloor> \<le> y" "y < of_int \<lfloor>y\<rfloor> + 1" by linarith+
  then show ?thesis
    by (auto simp add: round_half_even_def Let_def abs_le_iff)
qed

lemma fl_10000: "fl 10000 = 10000"
  using fl_of_int [of 10000] by simp

lemma np_round_4: "np_round x 4 = fl (of_int (round_half_even (fl (x * 10000))) / 10000)"
  by (simp add: np_round_def rint_def fl_10000 fmul_def fdiv_def Let_def)

lemma np_round_4_nearest:
  "\<exists>k. np_round x 4 = fl (of_int k / 10000) \<and> \<bar>of_int k - fl (x * 10000)\<bar> \<le> 1 / 2"
  using round_half_even_error [of "fl (x * 10000)"] np_round_4 [of x] by blast

lemma float_02675: "fl (2675 / 100000) = 7710162562058289 / 288230376151711744"
proof -
  have "fl (2675 / 100000) = of_int 7710162562058289 * 2 powi (- 58)"
    by (rule fl_eqI) (simp_all add: power_int_minus)
  then show ?thesis by (simp add: power_int_minus)
qed

lemma scaled_02675: "fl (7710162562058289 / 288230376151711744 * 10000) = 535 / 2"
proof -
  have "fl (7710162562058289 / 288230376151711744 * 10000)
          = of_int 4705909766881280 * 2 powi (- 44)"
    by (rule fl_eqI) (simp_all add: power_int_minus)
  then show ?thesis by (simp add: power_int_minus)
qed

lemma round_half_even_tie_up: "round_half_even (535 / 2) = 268"
proof -
  have "\<lfloor>535 / 2 :: rat\<rfloor> = 267" by (rule floor_unique) simp_all
  then show ?thesis by (simp add: round_half_even_def Let_def)
qed

lemma np_round_02675: "np_round (7710162562058289 / 288230376151711744) 4 = fl (268 / 10000)"
  by (simp only: np_round_4 scaled_02675 round_half_even_tie_up) simp

lemma float_00025: "fl (25 / 100000) = 1152921504606847 / 4611686018427387904"
proof -
  have "fl (25 / 100000) = of_int 4611686018427388 * 2 powi (- 64)"
    by (rule fl_eqI) (simp_all add: power_int_minus)
  then show ?thesis by (simp add: power_int_minus)
qed

lemma scaled_00025: "fl (- (1152921504606847 / 4611686018427387904) * 10000) = - (5 / 2)"
proof -
  have "fl (- (1152921504606847 / 4611686018427387904) * 10000)
          = of_int (- 5629499534213120) * 2 powi (- 51)"
    by (rule fl_eqI) (simp_all add: power_int_minus)
  then show ?thesis by (simp add: power_int_minus)
qed

lemma round_half_even_tie_down: "round_half_even (- (5 / 2)) = - 2"
proof -
  have "\<lfloor>- (5 / 2) :: rat\<rfloor> = - 3" by (rule floor_unique) simp_all
  then show ?thesis by (simp add: round_half_even_def Let_def)
qed

lemma np_round_00025:
  "np_round (- (1152921504606847 / 4611686018427387904)) 4 = fl (- 2 / 10000)"
  by (simp only: np_round_4 scaled_00025 round_half_even_tie_down) simp

text \<open>
  Claim C3. For every column that is not empty, \<open>getStats\<close> returns a peak whose
  \<open>rawValue\<close> is the minimum of the column when the absolute value of the minimum is the
  larger one, and the maximum otherwise, so that a tie goes to the maximum. The absolute
  value of \<open>rawValue\<close> is at least that of every value of the column, and it is the larger
  of the absolute values of the minimum and of the maximum. \<open>roundedValue\<close> is
  \<^verbatim>\<open>round(rawValue, 4)\<close> as the program computes it on the \<^verbatim>\<open>numpy.float64\<close> that
  \<open>rawValue\<close> is: the float product of \<open>rawValue\<close> and 10000, rounded to the nearest integer
  with ties to the even one, and divided by 10000. It is therefore the float nearest to
  \<open>k / 10000\<close> for an integer \<open>k\<close> at most one half away from that float product.
\<close>

theorem getStats_peak_value:
  assumes "col \<noteq> []"
  shows "\<exists>p. getStats col = Inr p
           \<and> rawValue p = (if \<bar>Max (set col)\<bar> < \<bar>Min (set col)\<bar> then Min (set col)
                           else Max (set col))
           \<and> (\<forall>v \<in> set col. \<bar>v\<bar> \<le> \<bar>rawValue p\<bar>)
           \<and> \<bar>rawValue p\<bar> = max \<bar>Min (set col)\<bar> \<bar>Max (set col)\<bar>
           \<and> roundedValue p = np_round (rawValue p) 4
           \<and> roundedValue p = fdiv (rint (fmul (rawValue p) 10000)) 10000
           \<and> (\<exists>k. roundedValue p = fl (of_int k / 10000)
                  \<and> \<bar>of_int k - fl (rawValue p * 10000)\<bar> \<le> 1 / 2)"
proof -
  let ?lo = "Min (set col)" and ?hi = "Max (set col)"
  let ?peak = "if \<bar>?hi\<bar> < \<bar>?lo\<bar> then ?lo else ?hi"
  from getStats_peak [OF assms] obtain i where
    s: "getStats col = Inr \<lparr>index = i, rawValue = ?peak, roundedValue = np_round ?peak 4\<rparr>"
    by blast
  have abs_peak: "\<bar>?peak\<bar> = max \<bar>?lo\<bar> \<bar>?hi\<bar>" by simp
  have bound: "\<forall>v \<in> set col. \<bar>v\<bar> \<le> \<bar>?peak\<bar>"
  proof
    fix v assume "v \<in> set col"
    then have "?lo \<le> v" "v \<le> ?hi" by simp_all
    then have "\<bar>v\<bar> \<le> max \<bar>?lo\<bar> \<bar>?hi\<bar>" by linarith
    with abs_peak show "\<bar>v\<bar> \<le> \<bar>?peak\<bar>" by simp
  qed
  have ops: "np_round ?peak 4 = fdiv (rint (fmul ?peak 10000)) 10000"
    by (simp only: np_round_4 fdiv_def fmul_def rint_def)
  note near = np_round_4_nearest [of ?peak]
  let ?p = "\<lparr>index = i, rawValue = ?peak, roundedValue = np_round ?peak 4\<rparr>"
  have "getStats col = Inr ?p" by (rule s)
  moreover have "rawValue ?p = ?peak" by simp
  moreover have "\<forall>v \<in> set col. \<bar>v\<bar> \<le> \<bar>rawValue ?p\<bar>" using bound by simp
  moreover have "\<bar>rawValue ?p\<bar> = max \<bar>?lo\<bar> \<bar>?hi\<bar>" using abs_peak by simp
  moreover have "roundedValue ?p = np_round (rawValue ?p) 4" by simp
  moreover have "roundedValue ?p = fdiv (rint (fmul (rawValue ?p) 10000)) 10000"
    using ops by simp
  moreover have "\<exists>k. roundedValue ?p = fl (of_int k / 10000)
                  \<and> \<bar>of_int k - fl (rawValue ?p * 10000)\<bar> \<le> 1 / 2"
    using near by simp
  ultimately show ?thesis by blast
qed

theorem getStats_peak_value_witness:
  "[fl (2675 / 100000), 0] \<noteq> []
   \<and> (\<exists>p. getStats [fl (2675 / 100000), 0] = Inr p
          \<and> rawValue p = fl (2675 / 100000)
          \<and> roundedValue p = fl (268 / 10000))
   \<and> [0, - fl (25 / 100000)] \<noteq> []
   \<and> (\<exists>p. getStats [0, - fl (25 / 100000)] = Inr p
          \<and> rawValue p = - fl (25 / 100000)
          \<and> roundedValue p = fl (- 2 / 10000))"
proof -
  let ?a = "7710162562058289 / 288230376151711744 :: rat"
  let ?b = "1152921504606847 / 4611686018427387904 :: rat"
  have up: "\<exists>p. getStats [?a, 0] = Inr p \<and> rawValue p = ?a \<and> roundedValue p = np_round ?a 4"
  proof -
    have ne: "[?a, 0] \<noteq> []" by simp
    from getStats_peak_value [OF ne] obtain p where p: "getStats [?a, 0] = Inr p"
      "rawValue p = (if \<bar>Max (set [?a, 0])\<bar> < \<bar>Min (set [?a, 0])\<bar> then Min (set [?a, 0])
                     else Max (set [?a, 0]))"
      "roundedValue p = np_round (rawValue p) 4"
      by blast
    have raw: "rawValue p = ?a" unfolding p(2) by simp
    have "roundedValue p = np_round ?a 4" using p(3) by (simp only: raw)
    with p(1) raw show ?thesis by blast
  qed
  have down: "\<exists>p. getStats [0, - ?b] = Inr p \<and> rawValue p = - ?b
      \<and> roundedValue p = np_round (- ?b) 4"
  proof -
    have ne: "[0, - ?b] \<noteq> []" by simp
    from getStats_peak_value [OF ne] obtain p where p: "getStats [0, - ?b] = Inr p"
      "rawValue p = (if \<bar>Max (set [0, - ?b])\<bar> < \<bar>Min (set [0, - ?b])\<bar>
                     then Min (set [0, - ?b]) else Max (set [0, - ?b]))"
      "roundedValue p = np_round (rawValue p) 4"
      by blast
    have raw: "rawValue p = - ?b" unfolding p(2) by simp
    have "roundedValue p = np_round (- ?b) 4" using p(3) by (simp only: raw)
    with p(1) raw show ?thesis by blast
  qed
  show ?thesis
    unfolding float_02675 float_00025 np_round_02675 [symmetric] np_round_00025 [symmetric]
    using up down by blast
qed




section \<open>The columns of the converted frame\<close>

lemma bind_Inr [simp]: "bind (Inr x) f = f x"
  by (simp add: bind_def)

lemma float_cells_map [simp]: "float_cells (map FloatCell xs) = Inr xs"
  by (induction xs) simp_all

lemma int_cells_map [simp]: "int_cells (map (\<lambda>s. IntCell (f s)) xs) = Inr (map f xs)"
  by (induction xs) simp_all

lemma truncate_rows_map: "truncate_rows b a (map f xs) = map f (truncate_rows b a xs)"
proof (rule nth_equalityI)
  show "length (truncate_rows b a (map f xs)) = length (map f (truncate_rows b a xs))"
    by (simp add: length_truncate_rows)
next
  fix j assume j: "j < length (truncate_rows b a (map f xs))"
  then have "j < length (truncate_rows b a xs)" by (simp add: length_truncate_rows)
  moreover from this have "b + j < length xs" by (simp add: length_truncate_rows)
  ultimately show "truncate_rows b a (map f xs) ! j = map f (truncate_rows b a xs) ! j"
    using j by (simp add: nth_truncate_rows)
qed

lemma reindex_exact: "length vs = n \<Longrightarrow> reindex n vs = vs"
  by (simp add: reindex_def)

lemma float_column_Inr:
  "map_of d name = Some (map FloatCell xs) \<Longrightarrow> float_column d name = Inr xs"
  by (simp add: float_column_def get_column_def)

lemma assign_array_append:
  assumes "length xs = nrows d" and "d \<noteq> []" and "name \<notin> set (map fst d)"
  shows "assign_array d name xs = Inr (d @ [(name, map FloatCell xs)])"
  using assms by (simp add: assign_array_def set_column_def)

lemma assign_series_append:
  assumes "length xs = nrows d" and "d \<noteq> []" and "name \<notin> set (map fst d)"
  shows "assign_series d name xs = Inr (d @ [(name, map FloatCell xs)])"
  using assms by (simp add: assign_series_def set_column_def reindex_exact)

lemma setSensitivity_known:
  "code \<in> set SENSOR_CODES_WITH_CHANNELS \<Longrightarrow> \<exists>sens. setSensitivity code = Inr sens"
  by (simp add: setSensitivity_def Let_def)

lemma length_integrateSeries:
  "xs \<noteq> [] \<Longrightarrow> length (integrateSeries h xs) = length xs"
  by (cases xs) (simp_all add: integrateSeries_def length_integrate_loop)

lemma getStats_Inr: "col \<noteq> [] \<Longrightarrow> \<exists>p. getStats col = Inr p"
  using getStats_peak [of col] by blast

lemma truncate_rows_cut: "truncate_rows 6000 40500 xs = cut xs"
proof (rule nth_equalityI)
  show "length (truncate_rows 6000 40500 xs) = length (cut xs)"
    by (simp add: length_truncate_rows cut_def)
next
  fix j assume j: "j < length (truncate_rows 6000 40500 xs)"
  then have "j < min (length xs) 40501 - 6000"
    by (simp add: length_truncate_rows)
  then have "6000 + j < min (length xs) 40501"
    by linarith
  then have "[6000 ..< min (length xs) 40501] ! j = 6000 + j"
    by (rule nth_upt)
  then show "truncate_rows 6000 40500 xs ! j = cut xs ! j"
    using j by (simp add: nth_truncate_rows length_truncate_rows cut_def)
qed

lemma Conversion_init_frame:
  assumes known: "code \<in> set SENSOR_CODES_WITH_CHANNELS"
    and detrend_length: "\<forall>xs. length (detrend_constant lib xs) = length xs"
    and band_length: "\<forall>xs. length (lfilter_band lib xs) = length xs"
    and high_length: "\<forall>xs. length (lfilter_high lib xs) = length xs"
    and long: "5000 < length samples"
  shows "\<exists>conv sens. Conversion_init lib (cleanDf samples) code = Inr conv
           \<and> setSensitivity code = Inr sens
           \<and> sensitivity conv = sens
           \<and> df conv = stage_columns lib sens samples"
proof -
  from known obtain sens where sens: "setSensitivity code = Inr sens"
    using setSensitivity_known by blast
  define n where "n = length samples + 1000"
  define m where "m = min n 40501 - 6000"
  have m_pos: "0 < m" using long by (simp add: m_def n_def)
  define ts where "ts = replicate zeroPadLength NoneCell
      @ map (\<lambda>s. StrCell (fst s)) samples @ replicate zeroPadLength NoneCell"
  define graw where "graw = map (convertCountToG sens) (map snd samples)"
  define g where "g = replicate zeroPadLength 0 @ graw @ replicate zeroPadLength (0::rat)"
  define offset_g where "offset_g = detrend_constant lib g"
  define acc_ms2 where "acc_ms2 = map convertGToMetric offset_g"
  define bandpassed_g where "bandpassed_g = lfilter_band lib offset_g"
  define bandpassed_ms2 where "bandpassed_ms2 = lfilter_band lib acc_ms2"
  define velocity_ms where "velocity_ms = integrateSeries dt bandpassed_ms2"
  define detrended_velocity_ms
    where "detrended_velocity_ms = detrend_constant lib (truncate_rows 6000 40500 velocity_ms)"
  define detrended_velocity_cms
    where "detrended_velocity_cms = map convertMToCm detrended_velocity_ms"
  define displacement_m where "displacement_m = integrateSeries dt detrended_velocity_ms"
  define detrended_displacement_m
    where "detrended_displacement_m = detrend_constant lib displacement_m"
  define highpassed_displacement_m
    where "highpassed_displacement_m = lfilter_high lib detrended_displacement_m"
  define highpassed_displacement_cm
    where "highpassed_displacement_cm = map convertMToCm highpassed_displacement_m"
  have len_ts: "length ts = n" by (simp add: ts_def n_def zeroPadLength_def)
  have len_g: "length g = n" by (simp add: g_def graw_def n_def zeroPadLength_def)
  have len_offset_g: "length offset_g = n" by (simp add: offset_g_def detrend_length len_g)
  have len_acc_ms2: "length acc_ms2 = n" by (simp add: acc_ms2_def len_offset_g)
  have len_bandpassed_g: "length bandpassed_g = n"
    by (simp add: bandpassed_g_def band_length len_offset_g)
  have len_bandpassed_ms2: "length bandpassed_ms2 = n"
    by (simp add: bandpassed_ms2_def band_length len_acc_ms2)
  have "bandpassed_ms2 \<noteq> []" using len_bandpassed_ms2 by (auto simp add: n_def)
  then have len_velocity_ms: "length velocity_ms = n"
    by (simp add: velocity_ms_def length_integrateSeries len_bandpassed_ms2)
  have len_cut: "length xs = n \<Longrightarrow> length (truncate_rows 6000 40500 xs) = m" for xs :: "'a list"
    by (simp add: length_truncate_rows m_def)
  have len_detrended_velocity_ms: "length detrended_velocity_ms = m"
    by (simp add: detrended_velocity_ms_def detrend_length len_cut len_velocity_ms)
  have len_detrended_velocity_cms: "length detrended_velocity_cms = m"
    by (simp add: detrended_velocity_cms_def len_detrended_velocity_ms)
  have "detrended_velocity_ms \<noteq> []" using len_detrended_velocity_ms m_pos by auto
  then have len_displacement_m: "length displacement_m = m"
    by (simp add: displacement_m_def length_integrateSeries len_detrended_velocity_ms)
  have len_detrended_displacement_m: "length detrended_displacement_m = m"
    by (simp add: detrended_displacement_m_def detrend_length len_displacement_m)
  have len_highpassed_displacement_m: "length highpassed_displacement_m = m"
    by (simp add: highpassed_displacement_m_def high_length len_detrended_displacement_m)
  have len_highpassed_displacement_cm: "length highpassed_displacement_cm = m"
    by (simp add: highpassed_displacement_cm_def len_highpassed_displacement_m)
  note lens = len_ts len_g len_offset_g len_acc_ms2 len_bandpassed_g len_bandpassed_ms2
    len_velocity_ms len_cut len_detrended_velocity_ms len_detrended_velocity_cms
    len_displacement_m len_detrended_displacement_m len_highpassed_displacement_m
    len_highpassed_displacement_cm
  note stage = assign_array_append assign_series_append float_column_Inr nrows_def
    butterBandpassFilter_def butterHighpassFilter_def

  have s_counts: "int_column (cleanDf samples) ''count''
      = Inr (map snd samples)"
    by (simp add: int_column_def get_column_def cleanDf_def)

  have s_g: "assign_series (cleanDf samples) ''g'' (map (convertCountToG sens) (map snd samples))
      = Inr [(''timestamp'', map (\<lambda>s. StrCell (fst s)) samples),
       (''count'', map (\<lambda>s. IntCell (snd s)) samples),
       (''g'', map FloatCell graw)]"
    by (simp add: assign_series_append cleanDf_def nrows_def graw_def)

  have s_pad: "getZeroPaddedDf [(''timestamp'', map (\<lambda>s. StrCell (fst s)) samples),
       (''count'', map (\<lambda>s. IntCell (snd s)) samples),
       (''g'', map FloatCell graw)] [''timestamp'', ''g'']
      = Inr [(''timestamp'', ts),
       (''g'', map FloatCell g)]"
    by (simp add: getZeroPaddedDf_def get_column_def ts_def g_def Let_def)

  have s_read_g: "float_column [(''timestamp'', ts),
       (''g'', map FloatCell g)] ''g''
      = Inr g"
    by (simp add: stage)

  have s_offset_g: "assign_array [(''timestamp'', ts),
       (''g'', map FloatCell g)] ''offset_g'' (detrend_constant lib g)
      = Inr [(''timestamp'', ts),
       (''g'', map FloatCell g),
       (''offset_g'', map FloatCell offset_g)]"
    by (simp add: stage lens offset_g_def [symmetric])

  have s_read_offset_g: "float_column [(''timestamp'', ts),
       (''g'', map FloatCell g),
       (''offset_g'', map FloatCell offset_g)] ''offset_g''
      = Inr offset_g"
    by (simp add: stage)

  have s_acc_ms2: "assign_series [(''timestamp'', ts),
       (''g'', map FloatCell g),
       (''offset_g'', map FloatCell offset_g)] ''acc_ms2'' (map convertGToMetric offset_g)
      = Inr [(''timestamp'', ts),
       (''g'', map FloatCell g),
       (''offset_g'', map FloatCell offset_g),
       (''acc_ms2'', map FloatCell acc_ms2)]"
    by (simp add: stage lens acc_ms2_def [symmetric])

  have s_bandpassed_g: "butterBandpassFilter lib [(''timestamp'', ts),
       (''g'', map FloatCell g),
       (''offset_g'', map FloatCell offset_g),
       (''acc_ms2'', map FloatCell acc_ms2)] ''offset_g'' ''bandpassed_g''
      = Inr [(''timestamp'', ts),
       (''g'', map FloatCell g),
       (''offset_g'', map FloatCell offset_g),
       (''acc_ms2'', map FloatCell acc_ms2),
       (''bandpassed_g'', map FloatCell bandpassed_g)]"
    by (simp add: stage lens bandpassed_g_def [symmetric])

  have s_bandpassed_ms2: "butterBandpassFilter lib [(''timestamp'', ts),
       (''g'', map FloatCell g),
       (''offset_g'', map FloatCell offset_g),
       (''acc_ms2'', map FloatCell acc_ms2),
       (''bandpassed_g'', map FloatCell bandpassed_g)] ''acc_ms2'' ''bandpassed_ms2''
      = Inr [(''timestamp'', ts),
       (''g'', map FloatCell g),
       (''offset_g'', map FloatCell offset_g),
       (''acc_ms2'', map FloatCell acc_ms2),
       (''bandpassed_g'', map FloatCell bandpassed_g),
       (''bandpassed_ms2'', map FloatCell bandpassed_ms2)]"
    by (simp add: stage lens bandpassed_ms2_def [symmetric])

  have s_read_bandpassed_ms2: "float_column [(''timestamp'', ts),
       (''g'', map FloatCell g),
       (''offset_g'', map FloatCell offset_g),
       (''acc_ms2'', map FloatCell acc_ms2),
       (''bandpassed_g'', map FloatCell bandpassed_g),
       (''bandpassed_ms2'', map FloatCell bandpassed_ms2)] ''bandpassed_ms2''
      = Inr bandpassed_ms2"
    by (simp add: stage)

  have s_velocity_ms: "assign_series [(''timestamp'', ts),
       (''g'', map FloatCell g),
       (''offset_g'', map FloatCell offset_g),
       (''acc_ms2'', map FloatCell acc_ms2),
       (''bandpassed_g'', map FloatCell bandpassed_g),
       (''bandpassed_ms2'', map FloatCell bandpassed_ms2)] ''velocity_ms'' (integrateSeries dt bandpassed_ms2)
      = Inr [(''timestamp'', ts),
       (''g'', map FloatCell g),
       (''offset_g'', map FloatCell offset_g),
       (''acc_ms2'', map FloatCell acc_ms2),
       (''bandpassed_g'', map FloatCell bandpassed_g),
       (''bandpassed_ms2'', map FloatCell bandpassed_ms2),
       (''velocity_ms'', map FloatCell velocity_ms)]"
    by (simp add: stage lens velocity_ms_def [symmetric])

  have s_cut: "removeExtraneousSamples [(''timestamp'', ts),
       (''g'', map FloatCell g),
       (''offset_g'', map FloatCell offset_g),
       (''acc_ms2'', map FloatCell acc_ms2),
       (''bandpassed_g'', map FloatCell bandpassed_g),
       (''bandpassed_ms2'', map FloatCell bandpassed_ms2),
       (''velocity_ms'', map FloatCell velocity_ms)]
      = [(''timestamp'', truncate_rows 6000 40500 ts),
       (''g'', map FloatCell (truncate_rows 6000 40500 g)),
       (''offset_g'', map FloatCell (truncate_rows 6000 40500 offset_g)),
       (''acc_ms2'', map FloatCell (truncate_rows 6000 40500 acc_ms2)),
       (''bandpassed_g'', map FloatCell (truncate_rows 6000 40500 bandpassed_g)),
       (''bandpassed_ms2'', map FloatCell (truncate_rows 6000 40500 bandpassed_ms2)),
       (''velocity_ms'', map FloatCell (truncate_rows 6000 40500 velocity_ms))]"
    by (simp add: removeExtraneousSamples_def truncate_rows_map zeroPadLength_def ignoredSamples_def)

  have s_read_velocity_ms: "float_column [(''timestamp'', truncate_rows 6000 40500 ts),
       (''g'', map FloatCell (truncate_rows 6000 40500 g)),
       (''offset_g'', map FloatCell (truncate_rows 6000 40500 offset_g)),
       (''acc_ms2'', map FloatCell (truncate_rows 6000 40500 acc_ms2)),
       (''bandpassed_g'', map FloatCell (truncate_rows 6000 40500 bandpassed_g)),
       (''bandpassed_ms2'', map FloatCell (truncate_rows 6000 40500 bandpassed_ms2)),
       (''velocity_ms'', map FloatCell (truncate_rows 6000 40500 velocity_ms))] ''velocity_ms''
      = Inr (truncate_rows 6000 40500 velocity_ms)"
    by (simp add: stage)

  have s_detrended_velocity_ms: "assign_array [(''timestamp'', truncate_rows 6000 40500 ts),
       (''g'', map FloatCell (truncate_rows 6000 40500 g)),
       (''offset_g'', map FloatCell (truncate_rows 6000 40500 offset_g)),
       (''acc_ms2'', map FloatCell (truncate_rows 6000 40500 acc_ms2)),
       (''bandpassed_g'', map FloatCell (truncate_rows 6000 40500 bandpassed_g)),
       (''bandpassed_ms2'', map FloatCell (truncate_rows 6000 40500 bandpassed_ms2)),
       (''velocity_ms'', map FloatCell (truncate_rows 6000 40500 velocity_ms))] ''detrended_velocity_ms''
      (detrend_constant lib (truncate_rows 6000 40500 velocity_ms))
      = Inr [(''timestamp'', truncate_rows 6000 40500 ts),
       (''g'', map FloatCell (truncate_rows 6000 40500 g)),
       (''offset_g'', map FloatCell (truncate_rows 6000 40500 offset_g)),
       (''acc_ms2'', map FloatCell (truncate_rows 6000 40500 acc_ms2)),
       (''bandpassed_g'', map FloatCell (truncate_rows 6000 40500 bandpassed_g)),
       (''bandpassed_ms2'', map FloatCell (truncate_rows 6000 40500 bandpassed_ms2)),
       (''velocity_ms'', map FloatCell (truncate_rows 6000 40500 velocity_ms)),
       (''detrended_velocity_ms'', map FloatCell detrended_velocity_ms)]"
    by (simp add: stage lens detrended_velocity_ms_def [symmetric])

  have s_read_detrended_velocity_ms: "float_column [(''timestamp'', truncate_rows 6000 40500 ts),
       (''g'', map FloatCell (truncate_rows 6000 40500 g)),
       (''offset_g'', map FloatCell (truncate_rows 6000 40500 offset_g)),
       (''acc_ms2'', map FloatCell (truncate_rows 6000 40500 acc_ms2)),
       (''bandpassed_g'', map FloatCell (truncate_rows 6000 40500 bandpassed_g)),
       (''bandpassed_ms2'', map FloatCell (truncate_rows 6000 40500 bandpassed_ms2)),
       (''velocity_ms'', map FloatCell (truncate_rows 6000 40500 velocity_ms)),
       (''detrended_velocity_ms'', map FloatCell detrended_velocity_ms)] ''detrended_velocity_ms''
      = Inr detrended_velocity_ms"
    by (simp add: stage)

  have s_detrended_velocity_cms: "assign_series [(''timestamp'', truncate_rows 6000 40500 ts),
       (''g'', map FloatCell (truncate_rows 6000 40500 g)),
       (''offset_g'', map FloatCell (truncate_rows 6000 40500 offset_g)),
       (''acc_ms2'', map FloatCell (truncate_rows 6000 40500 acc_ms2)),
       (''bandpassed_g'', map FloatCell (truncate_rows 6000 40500 bandpassed_g)),
       (''bandpassed_ms2'', map FloatCell (truncate_rows 6000 40500 bandpassed_ms2)),
       (''velocity_ms'', map FloatCell (truncate_rows 6000 40500 velocity_ms)),
       (''detrended_velocity_ms'', map FloatCell detrended_velocity_ms)] ''detrended_velocity_cms''
      (map convertMToCm detrended_velocity_ms)
      = Inr [(''timestamp'', truncate_rows 6000 40500 ts),
       (''g'', map FloatCell (truncate_rows 6000 40500 g)),
       (''offset_g'', map FloatCell (truncate_rows 6000 40500 offset_g)),
       (''acc_ms2'', map FloatCell (truncate_rows 6000 40500 acc_ms2)),
       (''bandpassed_g'', map FloatCell (truncate_rows 6000 40500 bandpassed_g)),
       (''bandpassed_ms2'', map FloatCell (truncate_rows 6000 40500 bandpassed_ms2)),
       (''velocity_ms'', map FloatCell (truncate_rows 6000 40500 velocity_ms)),
       (''detrended_velocity_ms'', map FloatCell detrended_velocity_ms),
       (''detrended_velocity_cms'', map FloatCell detrended_velocity_cms)]"
    by (simp add: stage lens detrended_velocity_cms_def [symmetric])

  have s_displacement_m: "assign_series [(''timestamp'', truncate_rows 6000 40500 ts),
       (''g'', map FloatCell (truncate_rows 6000 40500 g)),
       (''offset_g'', map FloatCell (truncate_rows 6000 40500 offset_g)),
       (''acc_ms2'', map FloatCell (truncate_rows 6000 40500 acc_ms2)),
       (''bandpassed_g'', map FloatCell (truncate_rows 6000 40500 bandpassed_g)),
       (''bandpassed_ms2'', map FloatCell (truncate_rows 6000 40500 bandpassed_ms2)),
       (''velocity_ms'', map FloatCell (truncate_rows 6000 40500 velocity_ms)),
       (''detrended_velocity_ms'', map FloatCell detrended_velocity_ms),
       (''detrended_velocity_cms'', map FloatCell detrended_velocity_cms)] ''displacement_m''
      (integrateSeries dt detrended_velocity_ms)
      = Inr [(''timestamp'', truncate_rows 6000 40500 ts),
       (''g'', map FloatCell (truncate_rows 6000 40500 g)),
       (''offset_g'', map FloatCell (truncate_rows 6000 40500 offset_g)),
       (''acc_ms2'', map FloatCell (truncate_rows 6000 40500 acc_ms2)),
       (''bandpassed_g'', map FloatCell (truncate_rows 6000 40500 bandpassed_g)),
       (''bandpassed_ms2'', map FloatCell (truncate_rows 6000 40500 bandpassed_ms2)),
       (''velocity_ms'', map FloatCell (truncate_rows 6000 40500 velocity_ms)),
       (''detrended_velocity_ms'', map FloatCell detrended_velocity_ms),
       (''detrended_velocity_cms'', map FloatCell detrended_velocity_cms),
       (''displacement_m'', map FloatCell displacement_m)]"
    by (simp add: stage lens displacement_m_def [symmetric])

  have s_read_displacement_m: "float_column [(''timestamp'', truncate_rows 6000 40500 ts),
       (''g'', map FloatCell (truncate_rows 6000 40500 g)),
       (''offset_g'', map FloatCell (truncate_rows 6000 40500 offset_g)),
       (''acc_ms2'', map FloatCell (truncate_rows 6000 40500 acc_ms2)),
       (''bandpassed_g'', map FloatCell (truncate_rows 6000 40500 bandpassed_g)),
       (''bandpassed_ms2'', map FloatCell (truncate_rows 6000 40500 bandpassed_ms2)),
       (''velocity_ms'', map FloatCell (truncate_rows 6000 40500 velocity_ms)),
       (''detrended_velocity_ms'', map FloatCell detrended_velocity_ms),
       (''detrended_velocity_cms'', map FloatCell detrended_velocity_cms),
       (''displacement_m'', map FloatCell displacement_m)] ''displacement_m''
      = Inr displacement_m"
    by (simp add: stage)

  have s_detrended_displacement_m: "assign_array [(''timestamp'', truncate_rows 6000 40500 ts),
       (''g'', map FloatCell (truncate_rows 6000 40500 g)),
       (''offset_g'', map FloatCell (truncate_rows 6000 40500 offset_g)),
       (''acc_ms2'', map FloatCell (truncate_rows 6000 40500 acc_ms2)),
       (''bandpassed_g'', map FloatCell (truncate_rows 6000 40500 bandpassed_g)),
       (''bandpassed_ms2'', map FloatCell (truncate_rows 6000 40500 bandpassed_ms2)),
       (''velocity_ms'', map FloatCell (truncate_rows 6000 40500 velocity_ms)),
       (''detrended_velocity_ms'', map FloatCell detrended_velocity_ms),
       (''detrended_velocity_cms'', map FloatCell detrended_velocity_cms),
       (''displacement_m'', map FloatCell displacement_m)] ''detrended_displacement_m''
      (detrend_constant lib displacement_m)
      = Inr [(''timestamp'', truncate_rows 6000 40500 ts),
       (''g'', map FloatCell (truncate_rows 6000 40500 g)),
       (''offset_g'', map FloatCell (truncate_rows 6000 40500 offset_g)),
       (''acc_ms2'', map FloatCell (truncate_rows 6000 40500 acc_ms2)),
       (''bandpassed_g'', map FloatCell (truncate_rows 6000 40500 bandpassed_g)),
       (''bandpassed_ms2'', map FloatCell (truncate_rows 6000 40500 bandpassed_ms2)),
       (''velocity_ms'', map FloatCell (truncate_rows 6000 40500 velocity_ms)),
       (''detrended_velocity_ms'', map FloatCell detrended_velocity_ms),
       (''detrended_velocity_cms'', map FloatCell detrended_velocity_cms),
       (''displacement_m'', map FloatCell displacement_m),
       (''detrended_displacement_m'', map FloatCell detrended_displacement_m)]"
    by (simp add: stage lens detrended_displacement_m_def [symmetric])

  have s_highpassed_displacement_m: "butterHighpassFilter lib [(''timestamp'', truncate_rows 6000 40500 ts),
       (''g'', map FloatCell (truncate_rows 6000 40500 g)),
       (''offset_g'', map FloatCell (truncate_rows 6000 40500 offset_g)),
       (''acc_ms2'', map FloatCell (truncate_rows 6000 40500 acc_ms2)),
       (''bandpassed_g'', map FloatCell (truncate_rows 6000 40500 bandpassed_g)),
       (''bandpassed_ms2'', map FloatCell (truncate_rows 6000 40500 bandpassed_ms2)),
       (''velocity_ms'', map FloatCell (truncate_rows 6000 40500 velocity_ms)),
       (''detrended_velocity_ms'', map FloatCell detrended_velocity_ms),
       (''detrended_velocity_cms'', map FloatCell detrended_velocity_cms),
       (''displacement_m'', map FloatCell displacement_m),
       (''detrended_displacement_m'', map FloatCell detrended_displacement_m)]
      ''detrended_displacement_m'' ''highpassed_displacement_m''
      = Inr [(''timestamp'', truncate_rows 6000 40500 ts),
       (''g'', map FloatCell (truncate_rows 6000 40500 g)),
       (''offset_g'', map FloatCell (truncate_rows 6000 40500 offset_g)),
       (''acc_ms2'', map FloatCell (truncate_rows 6000 40500 acc_ms2)),
       (''bandpassed_g'', map FloatCell (truncate_rows 6000 40500 bandpassed_g)),
       (''bandpassed_ms2'', map FloatCell (truncate_rows 6000 40500 bandpassed_ms2)),
       (''velocity_ms'', map FloatCell (truncate_rows 6000 40500 velocity_ms)),
       (''detrended_velocity_ms'', map FloatCell detrended_velocity_ms),
       (''detrended_velocity_cms'', map FloatCell detrended_velocity_cms),
       (''displacement_m'', map FloatCell displacement_m),
       (''detrended_displacement_m'', map FloatCell detrended_displacement_m),
       (''highpassed_displacement_m'', map FloatCell highpassed_displacement_m)]"
    by (simp add: stage lens highpassed_displacement_m_def [symmetric])

  have s_read_highpassed_displacement_m: "float_column [(''timestamp'', truncate_rows 6000 40500 ts),
       (''g'', map FloatCell (truncate_rows 6000 40500 g)),
       (''offset_g'', map FloatCell (truncate_rows 6000 40500 offset_g)),
       (''acc_ms2'', map FloatCell (truncate_rows 6000 40500 acc_ms2)),
       (''bandpassed_g'', map FloatCell (truncate_rows 6000 40500 bandpassed_g)),
       (''bandpassed_ms2'', map FloatCell (truncate_rows 6000 40500 bandpassed_ms2)),
       (''velocity_ms'', map FloatCell (truncate_rows 6000 40500 velocity_ms)),
       (''detrended_velocity_ms'', map FloatCell detrended_velocity_ms),
       (''detrended_velocity_cms'', map FloatCell detrended_velocity_cms),
       (''displacement_m'', map FloatCell displacement_m),
       (''detrended_displacement_m'', map FloatCell detrended_displacement_m),
       (''highpassed_displacement_m'', map FloatCell highpassed_displacement_m)] ''highpassed_displacement_m''
      = Inr highpassed_displacement_m"
    by (simp add: stage)

  have s_highpassed_displacement_cm: "assign_series [(''timestamp'', truncate_rows 6000 40500 ts),
       (''g'', map FloatCell (truncate_rows 6000 40500 g)),
       (''offset_g'', map FloatCell (truncate_rows 6000 40500 offset_g)),
       (''acc_ms2'', map FloatCell (truncate_rows 6000 40500 acc_ms2)),
       (''bandpassed_g'', map FloatCell (truncate_rows 6000 40500 bandpassed_g)),
       (''bandpassed_ms2'', map FloatCell (truncate_rows 6000 40500 bandpassed_ms2)),
       (''velocity_ms'', map FloatCell (truncate_rows 6000 40500 velocity_ms)),
       (''detrended_velocity_ms'', map FloatCell detrended_velocity_ms),
       (''detrended_velocity_cms'', map FloatCell detrended_velocity_cms),
       (''displacement_m'', map FloatCell displacement_m),
       (''detrended_displacement_m'', map FloatCell detrended_displacement_m),
       (''highpassed_displacement_m'', map FloatCell highpassed_displacement_m)] ''highpassed_displacement_cm''
      (map convertMToCm highpassed_displacement_m)
      = Inr [(''timestamp'', truncate_rows 6000 40500 ts),
       (''g'', map FloatCell (truncate_rows 6000 40500 g)),
       (''offset_g'', map FloatCell (truncate_rows 6000 40500 offset_g)),
       (''acc_ms2'', map FloatCell (truncate_rows 6000 40500 acc_ms2)),
       (''bandpassed_g'', map FloatCell (truncate_rows 6000 40500 bandpassed_g)),
       (''bandpassed_ms2'', map FloatCell (truncate_rows 6000 40500 bandpassed_ms2)),
       (''velocity_ms'', map FloatCell (truncate_rows 6000 40500 velocity_ms)),
       (''detrended_velocity_ms'', map FloatCell detrended_velocity_ms),
       (''detrended_velocity_cms'', map FloatCell detrended_velocity_cms),
       (''displacement_m'', map FloatCell displacement_m),
       (''detrended_displacement_m'', map FloatCell detrended_displacement_m),
       (''highpassed_displacement_m'', map FloatCell highpassed_displacement_m),
       (''highpassed_displacement_cm'', map FloatCell highpassed_displacement_cm)]"
    by (simp add: stage lens highpassed_displacement_cm_def [symmetric])

  define final where "final = [(''timestamp'', truncate_rows 6000 40500 ts),
       (''g'', map FloatCell (truncate_rows 6000 40500 g)),
       (''offset_g'', map FloatCell (truncate_rows 6000 40500 offset_g)),
       (''acc_ms2'', map FloatCell (truncate_rows 6000 40500 acc_ms2)),
       (''bandpassed_g'', map FloatCell (truncate_rows 6000 40500 bandpassed_g)),
       (''bandpassed_ms2'', map FloatCell (truncate_rows 6000 40500 bandpassed_ms2)),
       (''velocity_ms'', map FloatCell (truncate_rows 6000 40500 velocity_ms)),
       (''detrended_velocity_ms'', map FloatCell detrended_velocity_ms),
       (''detrended_velocity_cms'', map FloatCell detrended_velocity_cms),
       (''displacement_m'', map FloatCell displacement_m),
       (''detrended_displacement_m'', map FloatCell detrended_displacement_m),
       (''highpassed_displacement_m'', map FloatCell highpassed_displacement_m),
       (''highpassed_displacement_cm'', map FloatCell highpassed_displacement_cm)]"
  have ne: "truncate_rows 6000 40500 xs \<noteq> []" if "length xs = n" for xs :: "rat list"
    using len_cut [OF that] m_pos by auto
  obtain p1 where p1: "getStats_column final ''offset_g'' = Inr p1"
    using getStats_Inr [OF ne [OF len_offset_g]]
    by (auto simp add: getStats_column_def final_def stage)
  obtain p2 where p2: "getStats_column final ''bandpassed_g'' = Inr p2"
    using getStats_Inr [OF ne [OF len_bandpassed_g]]
    by (auto simp add: getStats_column_def final_def stage)
  have "detrended_velocity_cms \<noteq> []" using len_detrended_velocity_cms m_pos by auto
  then obtain p3 where p3: "getStats_column final ''detrended_velocity_cms'' = Inr p3"
    using getStats_Inr [of detrended_velocity_cms]
    by (auto simp add: getStats_column_def final_def stage)
  have "highpassed_displacement_cm \<noteq> []" using len_highpassed_displacement_cm m_pos by auto
  then obtain p4 where p4: "getStats_column final ''highpassed_displacement_cm'' = Inr p4"
    using getStats_Inr [of highpassed_displacement_cm]
    by (auto simp add: getStats_column_def final_def stage)
  have run: "Conversion_init lib (cleanDf samples) code =
      Inr \<lparr>df = final, sensitivity = sens, accOffsetStats = p1, accBandpassedStats = p2,
           velStats = p3, dispStats = p4\<rparr>"
    unfolding Conversion_init_def
    by (simp only: sens bind_Inr Let_def s_counts s_g s_pad s_read_g s_offset_g s_read_offset_g s_acc_ms2 s_bandpassed_g s_bandpassed_ms2 s_read_bandpassed_ms2 s_velocity_ms s_cut s_read_velocity_ms s_detrended_velocity_ms s_read_detrended_velocity_ms s_detrended_velocity_cms s_displacement_m s_read_displacement_m s_detrended_displacement_m s_highpassed_displacement_m s_read_highpassed_displacement_m s_highpassed_displacement_cm
        final_def [symmetric] p1 p2 p3 p4)
  have spec: "final = stage_columns lib sens samples"
    unfolding stage_columns_def Let_def final_def
    by (simp add: truncate_rows_cut ts_def g_def graw_def offset_g_def acc_ms2_def
        bandpassed_g_def bandpassed_ms2_def velocity_ms_def detrended_velocity_ms_def
        detrended_velocity_cms_def displacement_m_def detrended_displacement_m_def
        highpassed_displacement_m_def highpassed_displacement_cm_def zeroPadLength_def
        comp_def)
  from run spec sens show ?thesis by simp
qed

lemma stage_columns_names:
  "map fst (stage_columns lib sens samples) = [''timestamp'', ''g'', ''offset_g'', ''acc_ms2'', ''bandpassed_g'', ''bandpassed_ms2'', ''velocity_ms'', ''detrended_velocity_ms'', ''detrended_velocity_cms'', ''displacement_m'', ''detrended_displacement_m'', ''highpassed_displacement_m'', ''highpassed_displacement_cm'']"
  by (simp add: stage_columns_def Let_def)

lemma stage_columns_no_count:
  "get_column (stage_columns lib sens samples) ''count'' = Inl KeyError"
  by (simp add: stage_columns_def Let_def get_column_def)

text \<open>
  Claim C6, amended. For a sensor code of the table, more than 5000 samples, and a
  detrending and two filters that return as many values as they are given, the
  constructor succeeds, and the frame it leaves holds exactly thirteen columns:
  \<open>timestamp\<close>, \<open>g\<close> and the eleven columns derived from \<open>g\<close>, in the order of their stages.
  Each column holds what its stage computed, the seven columns computed before the
  truncation cut to the rows 6000 to 40500: no stage after the zero-padding overwrites or
  drops a column. The zero-padding builds its frame from \<open>timestamp\<close> and \<open>g\<close> alone, so the
  raw \<open>count\<close> column is not in the final frame.
\<close>

theorem Conversion_init_columns:
  assumes "code \<in> set SENSOR_CODES_WITH_CHANNELS"
    and "\<forall>xs. length (detrend_constant lib xs) = length xs"
    and "\<forall>xs. length (lfilter_band lib xs) = length xs"
    and "\<forall>xs. length (lfilter_high lib xs) = length xs"
    and "5000 < length samples"
  shows "\<exists>conv sens. Conversion_init lib (cleanDf samples) code = Inr conv
           \<and> setSensitivity code = Inr sens
           \<and> df conv = stage_columns lib sens samples
           \<and> map fst (df conv) =
              [''timestamp'',
               ''g'',
               ''offset_g'',
               ''acc_ms2'',
               ''bandpassed_g'',
               ''bandpassed_ms2'',
               ''velocity_ms'',
               ''detrended_velocity_ms'',
               ''detrended_velocity_cms'',
               ''displacement_m'',
               ''detrended_displacement_m'',
               ''highpassed_displacement_m'',
               ''highpassed_displacement_cm'']
           \<and> get_column (df conv) ''count'' = Inl KeyError"
proof -
  from Conversion_init_frame [OF assms] obtain conv sens where
    "Conversion_init lib (cleanDf samples) code = Inr conv" "setSensitivity code = Inr sens"
    "df conv = stage_columns lib sens samples"
    by blast
  then show ?thesis
    by (simp add: stage_columns_names stage_columns_no_count)
qed

theorem Conversion_init_columns_witness:
  "''B4Fx'' \<in> set SENSOR_CODES_WITH_CHANNELS
   \<and> 5000 < length (replicate 5001 (''2019-09-26T10:59:30'', 0 :: int))
   \<and> (\<exists>conv sens.
         Conversion_init
           \<lparr>detrend_constant = (\<lambda>xs. map (\<lambda>x. x - sum_list xs / of_nat (length xs)) xs),
            lfilter_band = (\<lambda>xs. xs), lfilter_high = (\<lambda>xs. xs)\<rparr>
           (cleanDf (replicate 5001 (''2019-09-26T10:59:30'', 0))) ''B4Fx'' = Inr conv
         \<and> setSensitivity ''B4Fx'' = Inr sens
         \<and> df conv = stage_columns
               \<lparr>detrend_constant = (\<lambda>xs. map (\<lambda>x. x - sum_list xs / of_nat (length xs)) xs),
                lfilter_band = (\<lambda>xs. xs), lfilter_high = (\<lambda>xs. xs)\<rparr>
               sens (replicate 5001 (''2019-09-26T10:59:30'', 0))
         \<and> map fst (df conv) =
              [''timestamp'',
               ''g'',
               ''offset_g'',
               ''acc_ms2'',
               ''bandpassed_g'',
               ''bandpassed_ms2'',
               ''velocity_ms'',
               ''detrended_velocity_ms'',
               ''detrended_velocity_cms'',
               ''displacement_m'',
               ''detrended_displacement_m'',
               ''highpassed_displacement_m'',
               ''highpassed_displacement_cm'']
         \<and> get_column (df conv) ''count'' = Inl KeyError)"
  using Conversion_init_columns [of "''B4Fx''"
      "\<lparr>detrend_constant = (\<lambda>xs. map (\<lambda>x. x - sum_list xs / of_nat (length xs)) xs),
        lfilter_band = (\<lambda>xs. xs), lfilter_high = (\<lambda>xs. xs)\<rparr>"
      "replicate 5001 (''2019-09-26T10:59:30'', 0)"]
  by (simp add: SENSOR_CODES_WITH_CHANNELS_def)

text \<open>
  As stated, the claim has every stage keep every earlier column, so that the final frame
  still holds the raw counts. The zero-padding stage, called as the constructor calls it
  on a frame of one row, returns a frame without the \<open>count\<close> column.
\<close>

theorem getZeroPaddedDf_drops_count_counterexample:
  "get_column [(''timestamp'', [StrCell ''t'']), (''count'', [IntCell 5]), (''g'', [FloatCell 1])]
       ''count'' = Inr [IntCell 5]
   \<and> getZeroPaddedDf
         [(''timestamp'', [StrCell ''t'']), (''count'', [IntCell 5]), (''g'', [FloatCell 1])]
         [''timestamp'', ''g'']
       = Inr [(''timestamp'', replicate 500 NoneCell @ [StrCell ''t''] @ replicate 500 NoneCell),
              (''g'', replicate 500 (FloatCell 0) @ [FloatCell 1] @ replicate 500 (FloatCell 0))]
   \<and> get_column
         [(''timestamp'', replicate 500 NoneCell @ [StrCell ''t''] @ replicate 500 NoneCell),
          (''g'', replicate 500 (FloatCell 0) @ [FloatCell 1] @ replicate 500 (FloatCell 0))]
         ''count'' = Inl KeyError"
  by (simp add: getZeroPaddedDf_def get_column_def zeroPadLength_def Let_def)

end
